theory Spec2Isabelle
  imports Main "HOL-Library.Word" "HOL-Library.Multiset" "HOL-Library.AList"
begin

section \<open>Common Go notions\<close>

text \<open>
  A Go \<open>error\<close> value is modelled by the message that \<open>err.Error()\<close> returns.
  A function returning \<open>(T, error)\<close> becomes \<open>error + T\<close>, with \<open>Inl\<close> the error.
\<close>

datatype error = Err (Error_msg: string)

text \<open>
  An iterator of the Google client libraries (\<open>it.Next()\<close>), as a loop that stops at
  the first error observes it: the items it yields, and then the way it ends, which is
  either the sentinel \<open>iterator.Done\<close> (\<open>None\<close>) or another error.
\<close>

datatype 'a iterator = Iterator (yields: "'a list") (final: "error option")

text \<open>\<open>strconv.FormatInt(i, 10)\<close>: the decimal digits, with a minus sign below zero.\<close>

definition digit_char :: "nat \<Rightarrow> char" where
  "digit_char d = ''0123456789'' ! d"

function digits10 :: "nat \<Rightarrow> string" where
  "digits10 n = (if n < 10 then [digit_char n] else digits10 (n div 10) @ [digit_char (n mod 10)])"
  by pat_completeness auto
termination
  by (relation "measure (\<lambda>n. n)") auto

declare digits10.simps [simp del]

definition FormatInt :: "int \<Rightarrow> string" where
  "FormatInt i = (if i < 0 then CHR ''-'' # digits10 (nat (- i)) else digits10 (nat i))"

section \<open>Job artifact scanner (package jobartifacts)\<close>

text \<open>
  \<open>storage.Query\<close> with the two fields the scanner sets to a value that depends on its
  input (the projection is a constant), and the bucket handle as the two operations the
  scanner calls on it: listing the objects of a query and opening a reader on an object.
\<close>

record Query =
  Prefix :: string
  MatchGlob :: string

record 'r BucketHandle =
  Objects :: "Query \<Rightarrow> string iterator"
  NewReader :: "string \<Rightarrow> error + 'r"

text \<open>
  \<open>JobArtifactQuery\<close>. The embedded \<open>ContentMatcher\<close> interface is \<open>None\<close> when nil,
  and otherwise its one method \<open>GetMatches\<close>, which returns a payload (an
  \<open>interface{}\<close>, \<open>None\<close> when nil) together with an optional error. The database
  client is only used by \<open>getJobRun\<close> and is left out.
\<close>

record ('r, 'm) JobArtifactQuery =
  GcsBucket :: "'r BucketHandle"
  JobRunIDs :: "64 word list"
  PathGlob :: string
  ContentMatcher :: "('r \<Rightarrow> 'm option \<times> error option) option"

record 'm JobRunArtifact =
  JobRunID :: string
  ArtifactURL :: string
  MatchedContent :: "'m option"
  Error :: string

definition emptyArtifact :: "'m JobRunArtifact" where
  "emptyArtifact = \<lparr>JobRunID = [], ArtifactURL = [], MatchedContent = None, Error = []\<rparr>"

text \<open>
  The loop of \<open>getJobRunFiles\<close> over the results of \<open>iter.Next()\<close>. The constant
  \<open>maxJobFilesToScan\<close> is declared outside the files at hand and is a parameter.
\<close>

fun scanObjects :: "nat \<Rightarrow> string list \<Rightarrow> string list \<Rightarrow> error option \<Rightarrow> error + (string list \<times> bool)" where
  "scanObjects maxJobFilesToScan files [] None = Inr (files, False)"
| "scanObjects maxJobFilesToScan files [] (Some err) = Inl err"
| "scanObjects maxJobFilesToScan files (name # rest) fin =
     (if length files \<ge> maxJobFilesToScan then Inr (files, True)
      else scanObjects maxJobFilesToScan (files @ [name]) rest fin)"

definition jobRunQuery :: "('r, 'm) JobArtifactQuery \<Rightarrow> string \<Rightarrow> Query" where
  "jobRunQuery q jobRunPath =
     \<lparr>Prefix = jobRunPath,
      MatchGlob = (if PathGlob q \<noteq> [] then jobRunPath @ PathGlob q else [])\<rparr>"

definition getJobRunFiles ::
  "nat \<Rightarrow> ('r, 'm) JobArtifactQuery \<Rightarrow> string \<Rightarrow> error + (string list \<times> bool)" where
  "getJobRunFiles maxJobFilesToScan q jobRunPath =
     (let iter = Objects (GcsBucket q) (jobRunQuery q jobRunPath)
      in scanObjects maxJobFilesToScan [] (yields iter) (final iter))"

definition artifactURL :: "string \<Rightarrow> string \<Rightarrow> string" where
  "artifactURL GcsBucketRoot filePath =
     ''https://gcsweb-ci.apps.ci.l2s4.p1.openshiftapps.com/gcs/'' @ GcsBucketRoot @ ''/'' @ filePath"

text \<open>
  \<open>getFileContentMatches\<close>. Its Go result type is the artifact alone: there is no
  error result. \<open>util.GcsBucketRoot\<close> is declared outside the files at hand and is a
  parameter.
\<close>

definition getFileContentMatches ::
  "string \<Rightarrow> ('r, 'm) JobArtifactQuery \<Rightarrow> 64 word \<Rightarrow> string \<Rightarrow> 'm JobRunArtifact" where
  "getFileContentMatches GcsBucketRoot q jobRunID filePath =
     (let artifact = emptyArtifact
            \<lparr>JobRunID := FormatInt (sint jobRunID),
             ArtifactURL := artifactURL GcsBucketRoot filePath\<rparr>
      in case ContentMatcher q of
           None \<Rightarrow> artifact
         | Some GetMatches \<Rightarrow>
             (case NewReader (GcsBucket q) filePath of
                Inl err \<Rightarrow> artifact\<lparr>Error := Error_msg err\<rparr>
              | Inr gcsReader \<Rightarrow>
                  (case GetMatches gcsReader of
                     (matches, Some err) \<Rightarrow>
                        artifact\<lparr>Error := Error_msg err, MatchedContent := matches\<rparr>
                   | (matches, None) \<Rightarrow> artifact\<lparr>MatchedContent := matches\<rparr>)))"

subsection \<open>Example inputs\<close>

definition demoBucket :: "string list \<Rightarrow> error option \<Rightarrow> unit BucketHandle" where
  "demoBucket names fin =
     \<lparr>Objects = (\<lambda>_. Iterator names fin), NewReader = (\<lambda>_. Inr ())\<rparr>"

definition demoQuery ::
  "string list \<Rightarrow> error option \<Rightarrow> (unit \<Rightarrow> string option \<times> error option) option
     \<Rightarrow> (unit, string) JobArtifactQuery" where
  "demoQuery names fin cm =
     \<lparr>GcsBucket = demoBucket names fin, JobRunIDs = [], PathGlob = ''*.log'',
      ContentMatcher = cm\<rparr>"


section \<open>Materialized view refresher (refreshMatview)\<close>

text \<open>
  What a run leaves behind is a trace of events: the log entries (logrus level and
  message, without the fields attached to the entry), the SQL the store was asked to run
  and the timing metrics observed (the elapsed time itself is wall-clock time and is
  not part of the model).
\<close>

datatype level = DebugLevel | InfoLevel | WarnLevel | ErrorLevel

datatype event =
    Log level string
  | RawScan string
  | ExecSQL string
  | ObserveRefreshMetric string

text \<open>
  The store, as the refresher uses it: \<open>dbc.DB.Raw(sql).Scan(&count)\<close> gives an error or
  the count, \<open>dbc.DB.Exec(sql)\<close> gives an error or none.
\<close>

record MatviewDB =
  RawCount :: "string \<Rightarrow> error + int"
  Exec :: "string \<Rightarrow> error option"

definition countSQL :: "string \<Rightarrow> string" where
  "countSQL matView = ''SELECT COUNT(*) FROM '' @ matView"

definition refreshConcurrentlySQL :: "string \<Rightarrow> string" where
  "refreshConcurrentlySQL matView = ''REFRESH MATERIALIZED VIEW CONCURRENTLY '' @ matView"

definition refreshSQL :: "string \<Rightarrow> string" where
  "refreshSQL matView = ''REFRESH MATERIALIZED VIEW '' @ matView"

text \<open>
  The first part of the loop body: the row-count probe made when
  \<open>refreshMatviewOnlyIfEmpty\<close> is set. The result says whether the loop goes on to the
  next view (\<open>continue\<close>), with the events of the probe.
\<close>

definition probeMatview :: "MatviewDB \<Rightarrow> bool \<Rightarrow> string \<Rightarrow> bool \<times> event list" where
  "probeMatview dbc refreshMatviewOnlyIfEmpty matView =
     (if refreshMatviewOnlyIfEmpty then
        (case RawCount dbc (countSQL matView) of
           Inl err \<Rightarrow>
             (False, [RawScan (countSQL matView),
                      Log WarnLevel ''proceeding with refresh of matview that appears to be empty''])
         | Inr cnt \<Rightarrow>
             if cnt > 0 then
               (True, [RawScan (countSQL matView),
                       Log InfoLevel ''skipping matview refresh as it appears to be populated''])
             else (False, [RawScan (countSQL matView)]))
      else (False, []))"

text \<open>The second part of the loop body: the concurrent refresh and its fallback.\<close>

definition tryRefresh :: "MatviewDB \<Rightarrow> string \<Rightarrow> event list" where
  "tryRefresh dbc matView =
     Log InfoLevel ''refreshing materialized view'' #
     ExecSQL (refreshConcurrentlySQL matView) #
     (case Exec dbc (refreshConcurrentlySQL matView) of
        Some err \<Rightarrow>
          Log WarnLevel ''error refreshing materialized view concurrently, falling back to regular refresh'' #
          ExecSQL (refreshSQL matView) #
          (case Exec dbc (refreshSQL matView) of
             Some err' \<Rightarrow> [Log ErrorLevel ''error refreshing materialized view'']
           | None \<Rightarrow> [Log InfoLevel ''refreshed materialized view'',
                      ObserveRefreshMetric matView])
      | None \<Rightarrow> [Log InfoLevel ''refreshed materialized view concurrently'',
                 ObserveRefreshMetric matView])"

definition refreshOneMatview :: "MatviewDB \<Rightarrow> bool \<Rightarrow> string \<Rightarrow> event list" where
  "refreshOneMatview dbc refreshMatviewOnlyIfEmpty matView =
     (case probeMatview dbc refreshMatviewOnlyIfEmpty matView of
        (True, evs) \<Rightarrow> evs
      | (False, evs) \<Rightarrow> evs @ tryRefresh dbc matView)"

text \<open>
  One worker: \<open>for matView := range ch\<close> over the views this worker received from the
  channel, one after the other. Which views a worker receives is decided by the race on
  the channel; whatever they are, each is handled by the loop body above from start to
  end within that worker.
\<close>

definition refreshMatview :: "MatviewDB \<Rightarrow> bool \<Rightarrow> string list \<Rightarrow> event list" where
  "refreshMatview dbc refreshMatviewOnlyIfEmpty ch =
     concat (map (refreshOneMatview dbc refreshMatviewOnlyIfEmpty) ch)"

text \<open>The statements executed, in order, and the views whose refresh was reported.\<close>

fun execsOf :: "event list \<Rightarrow> string list" where
  "execsOf [] = []"
| "execsOf (ExecSQL s # evs) = s # execsOf evs"
| "execsOf (_ # evs) = execsOf evs"

fun errorsLogged :: "event list \<Rightarrow> string list" where
  "errorsLogged [] = []"
| "errorsLogged (Log ErrorLevel m # evs) = m # errorsLogged evs"
| "errorsLogged (_ # evs) = errorsLogged evs"

fun metricsObserved :: "event list \<Rightarrow> string list" where
  "metricsObserved [] = []"
| "metricsObserved (ObserveRefreshMetric v # evs) = v # metricsObserved evs"
| "metricsObserved (_ # evs) = metricsObserved evs"

definition skipsAsPopulated :: "MatviewDB \<Rightarrow> bool \<Rightarrow> string \<Rightarrow> bool" where
  "skipsAsPopulated dbc refreshMatviewOnlyIfEmpty matView =
     (refreshMatviewOnlyIfEmpty \<and>
      (case RawCount dbc (countSQL matView) of Inl err \<Rightarrow> False | Inr cnt \<Rightarrow> cnt > 0))"

subsection \<open>Example inputs\<close>

definition populatedDB :: MatviewDB where
  "populatedDB = \<lparr>RawCount = (\<lambda>_. Inr 5), Exec = (\<lambda>_. None)\<rparr>"

definition noUniqueIndexDB :: MatviewDB where
  "noUniqueIndexDB =
     \<lparr>RawCount = (\<lambda>_. Inr 0),
      Exec = (\<lambda>sql. if sql = refreshConcurrentlySQL ''prow_test_report_7d_matview''
                     then Some (Err ''cannot refresh materialized view concurrently'')
                     else None)\<rparr>"

section \<open>Bug mapping reconciler (package bugloader): data and conversions\<close>

text \<open>
  Go's \<open>uint\<close> is the 64-bit word of the platforms the loader runs on. A \<open>time.Time\<close>
  is an instant, here a number; nothing but equality of instants is used.
\<close>

type_synonym uint = "64 word"
type_synonym time = int

record NullTimestamp =
  Timestamp :: time
  Valid :: bool

record bigQueryBug =
  ID :: uint
  Key :: string
  Status :: string
  LastChangedTime :: NullTimestamp
  Summary :: string
  AffectsVersions :: "string list"
  FixVersions :: "string list"
  TargetVersions :: "string list"
  Components :: "string list"
  Labels :: "string list"
  JiraID :: string
  LinkName :: string

text \<open>
  \<open>models.Bug\<close>, with the fields the loader sets. The types of the associated tests
  and jobs (\<open>models.Test\<close>, \<open>models.ProwJob\<close>) are declared outside the files at hand
  and are type parameters.
\<close>

record ('t, 'j) Bug =
  ID :: uint
  Key :: string
  Status :: string
  LastChangeTime :: time
  Summary :: string
  AffectsVersions :: "string list"
  FixVersions :: "string list"
  TargetVersions :: "string list"
  Components :: "string list"
  Labels :: "string list"
  URL :: string
  Tests :: "'t list"
  Jobs :: "'j list"

text \<open>
  \<open>bigQueryBugToModel\<close>. The reading of the wall clock (\<open>time.Now()\<close>) made at the
  start of the conversion is the first argument.
\<close>

definition bigQueryBugToModel :: "time \<Rightarrow> bigQueryBug \<Rightarrow> ('t, 'j) Bug" where
  "bigQueryBugToModel now bqBug =
     (let lastChange = (if Valid (LastChangedTime bqBug)
                        then Timestamp (LastChangedTime bqBug) else now)
      in \<lparr>ID = bigQueryBug.ID bqBug,
          Key = bigQueryBug.Key bqBug,
          Status = bigQueryBug.Status bqBug,
          LastChangeTime = lastChange,
          Summary = bigQueryBug.Summary bqBug,
          AffectsVersions = bigQueryBug.AffectsVersions bqBug,
          FixVersions = bigQueryBug.FixVersions bqBug,
          TargetVersions = bigQueryBug.TargetVersions bqBug,
          Components = bigQueryBug.Components bqBug,
          Labels = bigQueryBug.Labels bqBug,
          URL = ''https://issues.redhat.com/browse/'' @ bigQueryBug.Key bqBug,
          Tests = [], Jobs = []\<rparr>)"

subsection \<open>The Go library calls of \<open>parseBugKeyFromURL\<close>\<close>

text \<open>\<open>strings.Split(s, "/")\<close>: one more segment than there are separators.\<close>

fun Split_slash :: "string \<Rightarrow> string list" where
  "Split_slash [] = [[]]"
| "Split_slash (c # cs) =
     (if c = CHR ''/'' then [] # Split_slash cs
      else (case Split_slash cs of seg # segs \<Rightarrow> (c # seg) # segs | [] \<Rightarrow> [[c]]))"

text \<open>
  \<open>url.Parse\<close> of Go's \<open>net/url\<close>, as far as the \<open>Path\<close> of the result and the
  failure of the call go: the fragment is cut off at the first \<open>#\<close> (and must be
  well escaped), a control byte is refused, the scheme is read up to the first colon,
  the query is cut off at the first question mark, a rest that does not start with a
  slash is opaque (with a scheme) or must not have a colon in its first segment
  (without), an authority follows a leading double slash and ends at the next slash,
  and what remains is the path, with its percent escapes decoded. The validation of the
  authority (host, port, user information) is the parameter \<open>parseAuthority\<close>. Error
  messages are shortened.
\<close>

definition ishex :: "char \<Rightarrow> bool" where
  "ishex c = (let n = (of_char c :: nat)
              in (48 \<le> n \<and> n \<le> 57) \<or> (97 \<le> n \<and> n \<le> 102) \<or> (65 \<le> n \<and> n \<le> 70))"

definition unhex :: "char \<Rightarrow> nat" where
  "unhex c = (let n = (of_char c :: nat)
              in if 48 \<le> n \<and> n \<le> 57 then n - 48
                 else if 97 \<le> n \<and> n \<le> 102 then n - 97 + 10
                 else if 65 \<le> n \<and> n \<le> 70 then n - 65 + 10
                 else 0)"

fun unescape :: "string \<Rightarrow> error + string" where
  "unescape [] = Inr []"
| "unescape (c # cs) =
     (if c = CHR ''%'' then
        (case cs of
           h1 # h2 # rest \<Rightarrow>
             if ishex h1 \<and> ishex h2 then
               (case unescape rest of
                  Inl err \<Rightarrow> Inl err
                | Inr t \<Rightarrow> Inr (char_of (16 * unhex h1 + unhex h2) # t))
             else Inl (Err ''invalid URL escape'')
         | _ \<Rightarrow> Inl (Err ''invalid URL escape''))
      else (case unescape cs of Inl err \<Rightarrow> Inl err | Inr t \<Rightarrow> Inr (c # t)))"

definition stringContainsCTLByte :: "string \<Rightarrow> bool" where
  "stringContainsCTLByte s = list_ex (\<lambda>c. (of_char c :: nat) < 32 \<or> (of_char c :: nat) = 127) s"

definition isLetter :: "char \<Rightarrow> bool" where
  "isLetter c = (let n = (of_char c :: nat)
                 in (97 \<le> n \<and> n \<le> 122) \<or> (65 \<le> n \<and> n \<le> 90))"

definition isSchemeOther :: "char \<Rightarrow> bool" where
  "isSchemeOther c = (let n = (of_char c :: nat)
                      in (48 \<le> n \<and> n \<le> 57) \<or> c = CHR ''+'' \<or> c = CHR ''-'' \<or> c = CHR ''.'')"

text \<open>
  \<open>getScheme\<close>: \<open>seen\<close> is the part of \<open>rawURL\<close> before the current position; the
  result is the scheme (empty when there is none) and the rest.
\<close>

fun getSchemeFrom :: "string \<Rightarrow> string \<Rightarrow> string \<Rightarrow> error + (string \<times> string)" where
  "getSchemeFrom rawURL seen [] = Inr ([], rawURL)"
| "getSchemeFrom rawURL seen (c # cs) =
     (if isLetter c then getSchemeFrom rawURL (seen @ [c]) cs
      else if isSchemeOther c then
        (if seen = [] then Inr ([], rawURL) else getSchemeFrom rawURL (seen @ [c]) cs)
      else if c = CHR '':'' then
        (if seen = [] then Inl (Err ''missing protocol scheme'') else Inr (seen, cs))
      else Inr ([], rawURL))"

definition getScheme :: "string \<Rightarrow> error + (string \<times> string)" where
  "getScheme rawURL = getSchemeFrom rawURL [] rawURL"

definition before :: "char \<Rightarrow> string \<Rightarrow> string" where
  "before sep s = takeWhile (\<lambda>c. c \<noteq> sep) s"

definition after :: "char \<Rightarrow> string \<Rightarrow> string" where
  "after sep s = drop 1 (dropWhile (\<lambda>c. c \<noteq> sep) s)"

definition hasPrefix :: "string \<Rightarrow> string \<Rightarrow> bool" where
  "hasPrefix s p = (take (length p) s = p)"

definition url_parse :: "(string \<Rightarrow> error option) \<Rightarrow> string \<Rightarrow> error + string" where
  "url_parse parseAuthority rawURL =
     (if stringContainsCTLByte rawURL then Inl (Err ''net/url: invalid control character in URL'')
      else if rawURL = ''*'' then Inr ''*''
      else case getScheme rawURL of
        Inl err \<Rightarrow> Inl err
      | Inr (scheme, rest0) \<Rightarrow>
          (let rest = before (CHR ''?'') rest0 in
           if \<not> hasPrefix rest ''/'' \<and> scheme \<noteq> [] then Inr []
           else if \<not> hasPrefix rest ''/'' \<and> CHR '':'' \<in> set (before (CHR ''/'') rest)
             then Inl (Err ''first path segment in URL cannot contain colon'')
           else if (scheme \<noteq> [] \<or> \<not> hasPrefix rest ''///'') \<and> hasPrefix rest ''//'' then
             (let authority = before (CHR ''/'') (drop 2 rest);
                  rest' = dropWhile (\<lambda>c. c \<noteq> CHR ''/'') (drop 2 rest)
              in case parseAuthority authority of
                   Some err \<Rightarrow> Inl err
                 | None \<Rightarrow> unescape rest')
           else unescape rest))"

definition url_Parse :: "(string \<Rightarrow> error option) \<Rightarrow> string \<Rightarrow> error + string" where
  "url_Parse parseAuthority rawURL =
     (let u = before (CHR ''#'') rawURL; frag = after (CHR ''#'') rawURL
      in case url_parse parseAuthority u of
           Inl err \<Rightarrow> Inl err
         | Inr path \<Rightarrow>
             if frag = [] then Inr path
             else (case unescape frag of Inl err \<Rightarrow> Inl err | Inr f \<Rightarrow> Inr path))"

text \<open>\<open>parseBugKeyFromURL\<close>; the Go result \<open>("", err)\<close> is \<open>Inl err\<close>.\<close>

definition parseBugKeyFromURL :: "(string \<Rightarrow> error option) \<Rightarrow> string \<Rightarrow> error + string" where
  "parseBugKeyFromURL parseAuthority jiraURL =
     (case url_Parse parseAuthority jiraURL of
        Inl err \<Rightarrow> Inl err
      | Inr path \<Rightarrow>
          (let pathSegments = Split_slash path
           in if length pathSegments < 3
                 \<or> pathSegments ! (length pathSegments - 2) \<noteq> ''browse''
              then Inl (Err ''invalid Jira URL format'')
              else Inr (pathSegments ! (length pathSegments - 1))))"

text \<open>The bytes that keep a key from coming back out of its canonical URL.\<close>

definition plainKey :: "string \<Rightarrow> bool" where
  "plainKey k = (\<not> stringContainsCTLByte k
                 \<and> list_all (\<lambda>c. c \<notin> {CHR ''/'', CHR ''?'', CHR ''#'', CHR ''%''}) k)"

subsection \<open>Example inputs\<close>

definition acceptAuthority :: "string \<Rightarrow> error option" where
  "acceptAuthority authority = None"

definition demoRow :: "string \<Rightarrow> string \<Rightarrow> string \<Rightarrow> bool \<Rightarrow> bigQueryBug" where
  "demoRow jiraID key linkName valid =
     \<lparr>bigQueryBug.ID = 0, Key = key, Status = ''New'',
      LastChangedTime = \<lparr>Timestamp = 1700000000, Valid = valid\<rparr>,
      Summary = ''flaky test'', AffectsVersions = [''4.16''], FixVersions = [],
      TargetVersions = [], Components = [''Networking''], Labels = [],
      JiraID = jiraID, LinkName = linkName\<rparr>"

subsection \<open>The Go library calls of the row loops\<close>

text \<open>
  \<open>strconv.Atoi\<close>: an optional sign, then decimal digits only and at least one; a
  value outside the 64-bit \<open>int\<close> is a range error. The quoting of the input in the
  message is left out.
\<close>

definition isDigit :: "char \<Rightarrow> bool" where
  "isDigit c = (let n = (of_char c :: nat) in 48 \<le> n \<and> n \<le> 57)"

fun digitsValue :: "nat \<Rightarrow> string \<Rightarrow> nat option" where
  "digitsValue n [] = Some n"
| "digitsValue n (c # cs) =
     (if isDigit c then digitsValue (n * 10 + ((of_char c :: nat) - 48)) cs else None)"

definition Atoi :: "string \<Rightarrow> error + int" where
  "Atoi s =
     (let neg = (s \<noteq> [] \<and> hd s = CHR ''-'');
          ds = (if s \<noteq> [] \<and> (hd s = CHR ''-'' \<or> hd s = CHR ''+'') then tl s else s)
      in if ds = [] then Inl (Err (''strconv.Atoi: parsing '' @ s @ '': invalid syntax''))
         else case digitsValue 0 ds of
                None \<Rightarrow> Inl (Err (''strconv.Atoi: parsing '' @ s @ '': invalid syntax''))
              | Some n \<Rightarrow>
                  (let v = (if neg then - int n else int n)
                   in if v < - (2 ^ 63) \<or> 2 ^ 63 \<le> v
                      then Inl (Err (''strconv.Atoi: parsing '' @ s @ '': value out of range''))
                      else Inr v))"

text \<open>
  \<open>errors.WithMessage\<close>, \<open>errors.WithMessagef\<close> and \<open>errors.Wrap\<close> of
  \<open>github.com/pkg/errors\<close>: the message is put in front; a nil error stays nil.
\<close>

definition WithMessage :: "error \<Rightarrow> string \<Rightarrow> error" where
  "WithMessage err message = Err (message @ '': '' @ Error_msg err)"

definition Wrap :: "error option \<Rightarrow> string \<Rightarrow> error option" where
  "Wrap err message = (case err of None \<Rightarrow> None | Some e \<Rightarrow> Some (WithMessage e message))"

section \<open>Bug mapping reconciler: the three mapping queries\<close>

text \<open>
  A Go \<open>map[uint]*models.Bug\<close> is an association list without repeated keys; the
  order of the list carries no meaning. Reading is \<open>map_of\<close>, writing
  \<open>AList.update\<close>.
\<close>

type_synonym ('t, 'j) bugMap = "(uint \<times> ('t, 'j) Bug) list"

text \<open>
  What the loader can change besides its local variables: the rows of the relational
  store (see below), the accumulated \<open>bl.errors\<close> (an entry is \<open>None\<close> when a nil
  error was appended) and the log.
\<close>

record ('t, 'j) Triage =
  ID :: uint
  URL :: string
  Description :: string
  BugID :: "uint option"
  Bug :: "('t, 'j) Bug option"

record ('t, 'j) World =
  bugRows :: "('t, 'j) Bug list"
  triageRows :: "('t, 'j) Triage list"
  errors :: "error option list"
  logged :: "event list"

definition appendError :: "error option \<Rightarrow> ('t, 'j) World \<Rightarrow> ('t, 'j) World" where
  "appendError err w = w\<lparr>errors := errors w @ [err]\<rparr>"

definition logAt :: "level \<Rightarrow> string \<Rightarrow> ('t, 'j) World \<Rightarrow> ('t, 'j) World" where
  "logAt lvl message w = w\<lparr>logged := logged w @ [Log lvl message]\<rparr>"

text \<open>
  The body of the row loop of \<open>getTestBugMappings\<close>, after \<open>it.Next(&bwt)\<close> has
  delivered the row \<open>bwt\<close>. \<open>now\<close> is the reading of the wall clock while this row is
  handled.
\<close>

definition testRow ::
  "time \<Rightarrow> (string \<rightharpoonup> 't) \<Rightarrow> bigQueryBug \<Rightarrow> ('t, 'j) bugMap \<times> ('t, 'j) World
     \<Rightarrow> ('t, 'j) bugMap \<times> ('t, 'j) World" where
  "testRow now testCache bwt st =
     (case st of (bugs, w) \<Rightarrow>
      if JiraID bwt = [] \<or> LinkName bwt = [] then (bugs, w)
      else case Atoi (JiraID bwt) of
        Inl err \<Rightarrow>
          (bugs, appendError (Some (WithMessage err (''failed to convert jira id '' @ JiraID bwt))) w)
      | Inr intID \<Rightarrow>
          (let bwt = bwt\<lparr>bigQueryBug.ID := word_of_int intID\<rparr> in
           case testCache (LinkName bwt) of
             None \<Rightarrow>
               (bugs, logAt DebugLevel (''test name was in jira issue but not known by sippy: ''
                                        @ LinkName bwt) w)
           | Some test \<Rightarrow>
               (let bugs = (if map_of bugs (bigQueryBug.ID bwt) = None
                            then AList.update (bigQueryBug.ID bwt) (bigQueryBugToModel now bwt) bugs
                            else bugs)
                in (AList.map_entry (bigQueryBug.ID bwt) (\<lambda>b. b\<lparr>Tests := Tests b @ [test]\<rparr>) bugs,
                    w))))"

text \<open>The body of the row loop of \<open>getJobBugMappings\<close>.\<close>

definition jobRow ::
  "time \<Rightarrow> (string \<rightharpoonup> 'j) \<Rightarrow> bigQueryBug \<Rightarrow> ('t, 'j) bugMap \<times> ('t, 'j) World
     \<Rightarrow> ('t, 'j) bugMap \<times> ('t, 'j) World" where
  "jobRow now jobCache bwj st =
     (case st of (bugs, w) \<Rightarrow>
      if JiraID bwj = [] \<or> LinkName bwj = [] then (bugs, w)
      else case Atoi (JiraID bwj) of
        Inl err \<Rightarrow>
          (bugs, appendError (Some (WithMessage err (''failed to convert jira id '' @ JiraID bwj))) w)
      | Inr intID \<Rightarrow>
          (let bwj = bwj\<lparr>bigQueryBug.ID := word_of_int intID\<rparr> in
           case jobCache (LinkName bwj) of
             None \<Rightarrow>
               (bugs, logAt DebugLevel (''job name was in jira issue but not known by sippy: ''
                                        @ LinkName bwj) w)
           | Some job \<Rightarrow>
               (let bugs = (if map_of bugs (bigQueryBug.ID bwj) = None
                            then AList.update (bigQueryBug.ID bwj) (bigQueryBugToModel now bwj) bugs
                            else bugs)
                in (AList.map_entry (bigQueryBug.ID bwj) (\<lambda>b. b\<lparr>Jobs := Jobs b @ [job]\<rparr>) bugs,
                    w))))"

text \<open>The body of the row loop of \<open>getTriageBugMappings\<close>.\<close>

definition triageRow ::
  "time \<Rightarrow> bigQueryBug \<Rightarrow> ('t, 'j) bugMap \<times> ('t, 'j) World
     \<Rightarrow> ('t, 'j) bugMap \<times> ('t, 'j) World" where
  "triageRow now bwt st =
     (case st of (bugs, w) \<Rightarrow>
      if JiraID bwt = [] then (bugs, w)
      else case Atoi (JiraID bwt) of
        Inl err \<Rightarrow>
          (bugs, appendError (Some (WithMessage err (''failed to convert jira id '' @ JiraID bwt))) w)
      | Inr intID \<Rightarrow>
          (let bwt = bwt\<lparr>bigQueryBug.ID := word_of_int intID\<rparr> in
           (if map_of bugs (bigQueryBug.ID bwt) = None
            then AList.update (bigQueryBug.ID bwt) (bigQueryBugToModel now bwt) bugs
            else bugs, w)))"

text \<open>
  A row loop: the rows the iterator yields are handled one after the other; \<open>clock i\<close>
  is the reading of the wall clock while the row at position \<open>i\<close> is handled.
\<close>

fun rowLoop :: "(time \<Rightarrow> bigQueryBug \<Rightarrow> 's \<Rightarrow> 's) \<Rightarrow> (nat \<Rightarrow> time) \<Rightarrow> nat \<Rightarrow> bigQueryBug list \<Rightarrow> 's \<Rightarrow> 's" where
  "rowLoop body clock i [] st = st"
| "rowLoop body clock i (row # rows) st = rowLoop body clock (Suc i) rows (body (clock i) row st)"

text \<open>
  A mapping query as a whole: \<open>q.Read\<close> fails or gives an iterator; the rows are handled
  until the iterator ends, and an end other than \<open>iterator.Done\<close> is the error of the
  function. The query text is a constant of the source and is not modelled; the
  \<open>log.Debug\<close> of it is.
\<close>

definition runQuery ::
  "(time \<Rightarrow> bigQueryBug \<Rightarrow> ('t, 'j) bugMap \<times> ('t, 'j) World \<Rightarrow> ('t, 'j) bugMap \<times> ('t, 'j) World)
     \<Rightarrow> (nat \<Rightarrow> time) \<Rightarrow> error + bigQueryBug iterator \<Rightarrow> ('t, 'j) World
     \<Rightarrow> (error + ('t, 'j) bugMap) \<times> ('t, 'j) World" where
  "runQuery body clock readResult w =
     (let w = logAt DebugLevel ''querySQL'' w in
      case readResult of
        Inl err \<Rightarrow> (Inl (WithMessage err ''failed to execute query''), w)
      | Inr it \<Rightarrow>
          (case rowLoop body clock 0 (yields it) ([], w) of
             (bugs, w) \<Rightarrow>
               (case final it of
                  Some err \<Rightarrow> (Inl (WithMessage err ''failed to iterate over bug results''), w)
                | None \<Rightarrow> (Inr bugs, w))))"

definition getTestBugMappings ::
  "(nat \<Rightarrow> time) \<Rightarrow> error + bigQueryBug iterator \<Rightarrow> (string \<rightharpoonup> 't) \<Rightarrow> ('t, 'j) World
     \<Rightarrow> (error + ('t, 'j) bugMap) \<times> ('t, 'j) World" where
  "getTestBugMappings clock readResult testCache w =
     runQuery (\<lambda>now bwt. testRow now testCache bwt) clock readResult w"

definition getJobBugMappings ::
  "(nat \<Rightarrow> time) \<Rightarrow> error + bigQueryBug iterator \<Rightarrow> (string \<rightharpoonup> 'j) \<Rightarrow> ('t, 'j) World
     \<Rightarrow> (error + ('t, 'j) bugMap) \<times> ('t, 'j) World" where
  "getJobBugMappings clock readResult jobCache w =
     runQuery (\<lambda>now bwj. jobRow now jobCache bwj) clock readResult w"

text \<open>
  \<open>getTriageBugMappings\<close>: the keys of the triages' URLs are collected first, and the
  first URL without a key ends the function with the empty map and the error. The
  warehouse answers the query for these keys.
\<close>

fun jiraKeysOf :: "(string \<Rightarrow> error option) \<Rightarrow> ('t, 'j) Triage list \<Rightarrow> error + string list" where
  "jiraKeysOf parseAuthority [] = Inr []"
| "jiraKeysOf parseAuthority (triage # triages) =
     (case parseBugKeyFromURL parseAuthority (Triage.URL triage) of
        Inl err \<Rightarrow> Inl err
      | Inr key \<Rightarrow>
          (case jiraKeysOf parseAuthority triages of
             Inl err \<Rightarrow> Inl err
           | Inr keys \<Rightarrow> Inr (key # keys)))"

fun firstBadURL :: "(string \<Rightarrow> error option) \<Rightarrow> ('t, 'j) Triage list \<Rightarrow> string" where
  "firstBadURL parseAuthority [] = []"
| "firstBadURL parseAuthority (triage # triages) =
     (case parseBugKeyFromURL parseAuthority (Triage.URL triage) of
        Inl err \<Rightarrow> Triage.URL triage
      | Inr key \<Rightarrow> firstBadURL parseAuthority triages)"

definition getTriageBugMappings ::
  "(string \<Rightarrow> error option) \<Rightarrow> (nat \<Rightarrow> time) \<Rightarrow> (string list \<Rightarrow> error + bigQueryBug iterator)
     \<Rightarrow> ('t, 'j) Triage list \<Rightarrow> ('t, 'j) World
     \<Rightarrow> (error + ('t, 'j) bugMap) \<times> ('t, 'j) World" where
  "getTriageBugMappings parseAuthority clock readKeys triages w =
     (case jiraKeysOf parseAuthority triages of
        Inl err \<Rightarrow>
          (Inl err, logAt ErrorLevel (''failed to parse bug key from ''
                                      @ firstBadURL parseAuthority triages) w)
      | Inr jiraKeys \<Rightarrow> runQuery triageRow clock (readKeys jiraKeys) w)"

section \<open>Bug mapping reconciler: \<open>Load\<close>\<close>

subsection \<open>What \<open>Load\<close> is given\<close>

text \<open>
  Everything outside the loader that a run of \<open>Load\<close> depends on: the results of the
  cache queries, the answers of the warehouse to the three queries, the readings of the
  wall clock during each of the row loops, the order in which each \<open>range\<close> over a map
  visits its entries (Go leaves it open), and for every call into the relational store
  whether the store reports an error.
\<close>

record ('t, 'j) Env =
  LoadTestCache :: "error + (string \<rightharpoonup> 't)"
  LoadProwJobCache :: "error + (string \<rightharpoonup> 'j)"
  listTriagesErr :: "error option"
  readTestBugs :: "error + bigQueryBug iterator"
  readJobBugs :: "error + bigQueryBug iterator"
  readTriageBugs :: "string list \<Rightarrow> error + bigQueryBug iterator"
  clockTestBugs :: "nat \<Rightarrow> time"
  clockJobBugs :: "nat \<Rightarrow> time"
  clockTriageBugs :: "nat \<Rightarrow> time"
  urlAuthority :: "string \<Rightarrow> error option"
  rangeJobBugs :: "('t, 'j) bugMap \<Rightarrow> ('t, 'j) bugMap"
  rangeTriageBugs :: "('t, 'j) bugMap \<Rightarrow> ('t, 'j) bugMap"
  rangeAllBugs :: "('t, 'j) bugMap \<Rightarrow> ('t, 'j) bugMap"
  createErr :: "('t, 'j) Bug \<Rightarrow> error option"
  replaceTestsErr :: "('t, 'j) Bug \<Rightarrow> error option"
  replaceJobsErr :: "('t, 'j) Bug \<Rightarrow> error option"
  deleteErr :: "error option"
  firstErr :: "string \<Rightarrow> error option"
  saveErr :: "('t, 'j) Triage \<Rightarrow> error option"

subsection \<open>The relational store\<close>

text \<open>
  Modelled from the spec: the relational store (gorm over PostgreSQL) is outside the
  files at hand. The spec gives its operations: upsert by primary key with all columns
  updated on conflict, explicit replacement of a named many-to-many association (a
  plain upsert does not update the association tables), delete by predicate, and
  lookup by a column. The table of tickets is \<open>bugRows\<close> in the \<open>World\<close>, a list of
  rows with \<open>Bug.ID\<close> as primary key; the \<open>Tests\<close> and \<open>Jobs\<close> of a row stand for its
  entries in the two association tables. The table of triages is \<open>triageRows\<close>, with
  \<open>Triage.ID\<close> as primary key; a stored triage has no \<open>Bug\<close> loaded.
\<close>

definition upsertBug :: "('t, 'j) Bug \<Rightarrow> ('t, 'j) Bug list \<Rightarrow> ('t, 'j) Bug list" where
  "upsertBug bug rows =
     (if list_ex (\<lambda>r. Bug.ID r = Bug.ID bug) rows
      then map (\<lambda>r. if Bug.ID r = Bug.ID bug then bug\<lparr>Tests := Tests r, Jobs := Jobs r\<rparr> else r) rows
      else rows @ [bug\<lparr>Tests := [], Jobs := []\<rparr>])"

definition replaceTests :: "('t, 'j) Bug \<Rightarrow> ('t, 'j) Bug list \<Rightarrow> ('t, 'j) Bug list" where
  "replaceTests bug rows =
     map (\<lambda>r. if Bug.ID r = Bug.ID bug then r\<lparr>Tests := Tests bug\<rparr> else r) rows"

definition replaceJobs :: "('t, 'j) Bug \<Rightarrow> ('t, 'j) Bug list \<Rightarrow> ('t, 'j) Bug list" where
  "replaceJobs bug rows =
     map (\<lambda>r. if Bug.ID r = Bug.ID bug then r\<lparr>Jobs := Jobs bug\<rparr> else r) rows"

text \<open>
  \<open>Where("id not in ?", expectedBugIDs).Unscoped().Delete(...)\<close>: the rows whose primary
  key is not in the list are removed. For an empty list the condition is rendered as
  \<open>id not in (NULL)\<close>, which holds of no row, so nothing is removed.
\<close>

definition deleteNotIn :: "uint list \<Rightarrow> ('t, 'j) Bug list \<Rightarrow> ('t, 'j) Bug list" where
  "deleteNotIn ids rows = (if ids = [] then rows else filter (\<lambda>r. Bug.ID r \<in> set ids) rows)"

text \<open>\<open>First\<close>: the row with the least primary key among those with the URL, without its associations.\<close>

definition firstByURL :: "string \<Rightarrow> ('t, 'j) Bug list \<Rightarrow> ('t, 'j) Bug option" where
  "firstByURL url rows =
     map_option (\<lambda>r. r\<lparr>Tests := [], Jobs := []\<rparr>)
       (find (\<lambda>r. Bug.URL r = url) (sort_key Bug.ID rows))"

definition saveTriage :: "('t, 'j) Triage \<Rightarrow> ('t, 'j) Triage list \<Rightarrow> ('t, 'j) Triage list" where
  "saveTriage t rows =
     (if list_ex (\<lambda>r. Triage.ID r = Triage.ID t) rows
      then map (\<lambda>r. if Triage.ID r = Triage.ID t then t\<lparr>Bug := None\<rparr> else r) rows
      else rows @ [t\<lparr>Bug := None\<rparr>])"

text \<open>
  Modelled from the spec: \<open>query.ListTriages\<close> is outside the files at hand. It gives
  the full current set of Triage rows, each with the Ticket row its foreign key points
  to (if there is one) loaded into \<open>Bug\<close>.
\<close>

definition preloadBug :: "('t, 'j) Bug list \<Rightarrow> ('t, 'j) Triage \<Rightarrow> ('t, 'j) Triage" where
  "preloadBug rows t =
     t\<lparr>Bug := (case BugID t of
                 None \<Rightarrow> None
               | Some k \<Rightarrow> map_option (\<lambda>r. r\<lparr>Tests := [], Jobs := []\<rparr>)
                             (find (\<lambda>r. Bug.ID r = k) rows))\<rparr>"

definition ListTriages :: "('t, 'j) Env \<Rightarrow> ('t, 'j) World \<Rightarrow> error + ('t, 'j) Triage list" where
  "ListTriages env w =
     (case listTriagesErr env of
        Some err \<Rightarrow> Inl err
      | None \<Rightarrow> Inr (map (preloadBug (bugRows w)) (triageRows w)))"

subsection \<open>The steps of \<open>Load\<close>\<close>

text \<open>
  The merge of the three maps. \<open>allBugs\<close> starts as the test map itself; the two loops
  visit the entries of the job map and of the triage map in the order of their
  \<open>range\<close>.
\<close>

fun mergeJobBugs :: "('t, 'j) bugMap \<Rightarrow> ('t, 'j) bugMap \<Rightarrow> ('t, 'j) bugMap" where
  "mergeJobBugs allBugs [] = allBugs"
| "mergeJobBugs allBugs ((k, b) # rest) =
     (if map_of allBugs (Bug.ID b) \<noteq> None
      then mergeJobBugs (AList.map_entry (Bug.ID b) (\<lambda>a. a\<lparr>Jobs := Jobs b\<rparr>) allBugs) rest
      else mergeJobBugs (AList.update (Bug.ID b) b allBugs) rest)"

fun mergeTriageBugs :: "('t, 'j) bugMap \<Rightarrow> ('t, 'j) bugMap \<Rightarrow> ('t, 'j) bugMap" where
  "mergeTriageBugs allBugs [] = allBugs"
| "mergeTriageBugs allBugs ((k, b) # rest) =
     (if map_of allBugs (Bug.ID b) \<noteq> None
      then mergeTriageBugs allBugs rest
      else mergeTriageBugs (AList.update (Bug.ID b) b allBugs) rest)"

definition mergeBugs ::
  "('t, 'j) Env \<Rightarrow> ('t, 'j) bugMap \<Rightarrow> ('t, 'j) bugMap \<Rightarrow> ('t, 'j) bugMap \<Rightarrow> ('t, 'j) bugMap" where
  "mergeBugs env testBugs jobBugs triageBugs =
     mergeTriageBugs (mergeJobBugs testBugs (rangeJobBugs env jobBugs))
       (rangeTriageBugs env triageBugs)"

text \<open>
  The body of the loop over \<open>dbExpectedBugs\<close>. In the two association branches the
  source wraps \<open>res.Error\<close>, which is nil there, so a nil error is appended.
\<close>

definition persistBug ::
  "('t, 'j) Env \<Rightarrow> ('t, 'j) Bug \<Rightarrow> uint list \<times> ('t, 'j) World \<Rightarrow> uint list \<times> ('t, 'j) World" where
  "persistBug env bug st =
     (case st of (expectedBugIDs, w) \<Rightarrow>
      let expectedBugIDs = expectedBugIDs @ [Bug.ID bug] in
      case createErr env bug of
        Some err \<Rightarrow>
          (expectedBugIDs,
           appendError (Wrap (Some err) ''error creating bug'')
             (logAt ErrorLevel ''error creating bug'' w))
      | None \<Rightarrow>
          (let w = w\<lparr>bugRows := upsertBug bug (bugRows w)\<rparr> in
           case replaceTestsErr env bug of
             Some err \<Rightarrow>
               (expectedBugIDs,
                appendError (Wrap None ''error updating bug test assocations'')
                  (logAt ErrorLevel ''error updating bug test associations'' w))
           | None \<Rightarrow>
               (let w = w\<lparr>bugRows := replaceTests bug (bugRows w)\<rparr> in
                case replaceJobsErr env bug of
                  Some err \<Rightarrow>
                    (expectedBugIDs,
                     appendError (Wrap None ''error updating bug job assocations'')
                       (logAt ErrorLevel ''error updating bug job associations'' w))
                | None \<Rightarrow> (expectedBugIDs, w\<lparr>bugRows := replaceJobs bug (bugRows w)\<rparr>))))"

fun persistBugs ::
  "('t, 'j) Env \<Rightarrow> ('t, 'j) Bug list \<Rightarrow> uint list \<times> ('t, 'j) World \<Rightarrow> uint list \<times> ('t, 'j) World" where
  "persistBugs env [] st = st"
| "persistBugs env (bug # dbExpectedBugs) st = persistBugs env dbExpectedBugs (persistBug env bug st)"

definition deleteStale :: "('t, 'j) Env \<Rightarrow> uint list \<Rightarrow> ('t, 'j) World \<Rightarrow> ('t, 'j) World" where
  "deleteStale env expectedBugIDs w =
     logAt InfoLevel ''deleted stale bugs''
       (case deleteErr env of
          Some err \<Rightarrow> appendError (Wrap (Some err) ''error deleting stale bugs'') w
        | None \<Rightarrow> w\<lparr>bugRows := deleteNotIn expectedBugIDs (bugRows w)\<rparr>)"

text \<open>
  The loop over the triages. A triage with a foreign key whose \<open>Bug\<close> is nil makes
  \<open>t.Bug.URL\<close> a nil pointer dereference, which is a panic.
\<close>

datatype 'a outcome = Returned 'a | Panicked error

definition relinkTriage :: "('t, 'j) Env \<Rightarrow> ('t, 'j) Triage \<Rightarrow> ('t, 'j) World \<Rightarrow> ('t, 'j) World" where
  "relinkTriage env t w =
     (case (case firstErr env (Triage.URL t) of
              Some err \<Rightarrow> Inl err
            | None \<Rightarrow>
                (case firstByURL (Triage.URL t) (bugRows w) of
                   None \<Rightarrow> Inl (Err ''record not found'')
                 | Some bug \<Rightarrow> Inr bug)) of
        Inl err \<Rightarrow>
          logAt WarnLevel (''error looking up bug which should exist by this point: ''
                           @ Triage.URL t) w
      | Inr bug \<Rightarrow>
          (let w = logAt InfoLevel ''linking triage to bug'' w;
               t = t\<lparr>Bug := Some bug, BugID := Some (Bug.ID bug)\<rparr>
           in case saveErr env t of
                Some err \<Rightarrow>
                  appendError (Wrap (Some err) ''error linking bug'')
                    (logAt ErrorLevel ''error linking bug'' w)
              | None \<Rightarrow> w\<lparr>triageRows := saveTriage t (triageRows w)\<rparr>))"

fun relinkTriages ::
  "('t, 'j) Env \<Rightarrow> ('t, 'j) Triage list \<Rightarrow> ('t, 'j) World \<Rightarrow> ('t, 'j) World outcome" where
  "relinkTriages env [] w = Returned w"
| "relinkTriages env (t # triages) w =
     (case BugID t of
        None \<Rightarrow> relinkTriages env triages (relinkTriage env t w)
      | Some k \<Rightarrow>
          (case Bug t of
             None \<Rightarrow> Panicked (Err ''invalid memory address or nil pointer dereference'')
           | Some linked \<Rightarrow>
               if Triage.URL t = Bug.URL linked then relinkTriages env triages w
               else relinkTriages env triages (relinkTriage env t w)))"

text \<open>
  The first half of \<open>Load\<close>: the three fetches. The result is either the outcome of a
  run that ends here (a \<open>return\<close> after a failed cache or triage query, a panic after
  a failed mapping query) or the fetched data to go on with.
\<close>

record ('t, 'j) Fetched =
  fetchedTriages :: "('t, 'j) Triage list"
  fetchedTestBugs :: "('t, 'j) bugMap"
  fetchedJobBugs :: "('t, 'j) bugMap"
  fetchedTriageBugs :: "('t, 'j) bugMap"

definition fetchMappings ::
  "('t, 'j) Env \<Rightarrow> ('t, 'j) World \<Rightarrow> ('t, 'j) World outcome + (('t, 'j) Fetched \<times> ('t, 'j) World)" where
  "fetchMappings env w =
     (case LoadTestCache env of
        Inl err \<Rightarrow> Inl (Returned (appendError (Some err) w))
      | Inr testCache \<Rightarrow>
     (case getTestBugMappings (clockTestBugs env) (readTestBugs env) testCache w of
        (Inl err, w) \<Rightarrow> Inl (Panicked err)
      | (Inr testBugs, w) \<Rightarrow>
     (let w = logAt InfoLevel ''Loaded test bugs'' w in
      case LoadProwJobCache env of
        Inl err \<Rightarrow> Inl (Returned (appendError (Some err) w))
      | Inr jobCache \<Rightarrow>
     (case getJobBugMappings (clockJobBugs env) (readJobBugs env) jobCache w of
        (Inl err, w) \<Rightarrow> Inl (Panicked err)
      | (Inr jobBugs, w) \<Rightarrow>
     (let w = logAt InfoLevel ''Loaded job bugs'' w in
      case ListTriages env w of
        Inl err \<Rightarrow> Inl (Returned (appendError (Some err) w))
      | Inr triages \<Rightarrow>
     (case getTriageBugMappings (urlAuthority env) (clockTriageBugs env) (readTriageBugs env)
             triages w of
        (Inl err, w) \<Rightarrow> Inl (Panicked err)
      | (Inr triageBugs, w) \<Rightarrow>
          Inr (\<lparr>fetchedTriages = triages, fetchedTestBugs = testBugs,
                fetchedJobBugs = jobBugs, fetchedTriageBugs = triageBugs\<rparr>,
               logAt InfoLevel ''Loaded triage bugs'' w)))))))"

text \<open>The second half of \<open>Load\<close>: merge, persist, delete the stale rows, relink the triages.\<close>

definition reconcile ::
  "('t, 'j) Env \<Rightarrow> ('t, 'j) Fetched \<Rightarrow> ('t, 'j) World \<Rightarrow> ('t, 'j) World outcome" where
  "reconcile env f w =
     (let allBugs = mergeBugs env (fetchedTestBugs f) (fetchedJobBugs f) (fetchedTriageBugs f);
          w = logAt InfoLevel ''Loaded all job bugs'' w;
          dbExpectedBugs = map snd (rangeAllBugs env allBugs)
      in case persistBugs env dbExpectedBugs ([], w) of
           (expectedBugIDs, w) \<Rightarrow>
             (let w = logAt InfoLevel ''created or updated bugs'' w;
                  w = deleteStale env expectedBugIDs w;
                  w = logAt InfoLevel ''ensuring triages have correct refs to their bugs'' w
              in relinkTriages env (fetchedTriages f) w))"

definition Load :: "('t, 'j) Env \<Rightarrow> ('t, 'j) World \<Rightarrow> ('t, 'j) World outcome" where
  "Load env w =
     (case fetchMappings env w of
        Inl ended \<Rightarrow> ended
      | Inr (f, w) \<Rightarrow> reconcile env f w)"

subsection \<open>Well-formed maps and range orders\<close>

text \<open>
  In the maps the three mapping queries build, every record sits under its own
  identifier; and a \<open>range\<close> over a map visits every entry once.
\<close>

definition keyedByID :: "('t, 'j) bugMap \<Rightarrow> bool" where
  "keyedByID m = list_all (\<lambda>(k, b). Bug.ID b = k) m"

definition visitsAll :: "(('t, 'j) bugMap \<Rightarrow> ('t, 'j) bugMap) \<Rightarrow> ('t, 'j) bugMap \<Rightarrow> bool" where
  "visitsAll order m = (mset (order m) = mset m)"

text \<open>Two worlds with the same rows in both tables, and the primary keys in the table of tickets.\<close>

definition sameRows :: "('t, 'j) World \<Rightarrow> ('t, 'j) World \<Rightarrow> bool" where
  "sameRows w w' = (bugRows w' = bugRows w \<and> triageRows w' = triageRows w)"

definition rowIDs :: "('t, 'j) World \<Rightarrow> uint set" where
  "rowIDs w = set (map Bug.ID (bugRows w))"


subsection \<open>The link between a triage and its ticket\<close>

text \<open>
  A triage as \<open>Load\<close> lists it is linked properly when it has a foreign key and the
  URL of the ticket loaded for it is the triage's own URL: these are the triages the
  last loop of \<open>Load\<close> passes over. After a run, a triage is linked to a matching
  ticket when the stored triage row holds the primary key of a ticket row whose URL is
  the triage's URL.
\<close>

definition linkedProperly :: "('t, 'j) Triage \<Rightarrow> bool" where
  "linkedProperly t =
     (case BugID t of
        None \<Rightarrow> False
      | Some k \<Rightarrow> (case Bug t of None \<Rightarrow> False | Some linked \<Rightarrow> Triage.URL t = Bug.URL linked))"

definition storedTriage :: "('t, 'j) World \<Rightarrow> uint \<Rightarrow> ('t, 'j) Triage option" where
  "storedTriage w k = find (\<lambda>r. Triage.ID r = k) (triageRows w)"

definition linkedToMatching :: "('t, 'j) World \<Rightarrow> ('t, 'j) Triage \<Rightarrow> bool" where
  "linkedToMatching w t =
     list_ex (\<lambda>b. Bug.URL b = Triage.URL t
                \<and> map_option BugID (storedTriage w (Triage.ID t)) = Some (Some (Bug.ID b)))
       (bugRows w)"

definition lookupWarning :: "('t, 'j) Triage \<Rightarrow> event" where
  "lookupWarning t =
     Log WarnLevel (''error looking up bug which should exist by this point: '' @ Triage.URL t)"

subsection \<open>The authoritative set of a run\<close>



subsection \<open>Two runs on the same sources\<close>










definition known :: "('t, 'j) Triage \<Rightarrow> (uint \<times> string) list \<Rightarrow> bool" where
  "known t ius = ((Triage.ID t, Triage.URL t) \<in> set ius
                  \<and> (\<forall>(i, u) \<in> set ius. i = Triage.ID t \<longrightarrow> u = Triage.URL t))"


section \<open>Example inputs of the bug mapping reconciler\<close>

definition emptyWorld :: "(string, string) World" where
  "emptyWorld = \<lparr>bugRows = [], triageRows = [], errors = [], logged = []\<rparr>"

definition demoTestCache :: "string \<rightharpoonup> string" where
  "demoTestCache = [''unit-test-foo'' \<mapsto> ''test 1: unit-test-foo'']"

definition demoJobCache :: "string \<rightharpoonup> string" where
  "demoJobCache = [''periodic-job-x'' \<mapsto> ''job 7: periodic-job-x'']"

definition demoBug :: "uint \<Rightarrow> string \<Rightarrow> time \<Rightarrow> string list \<Rightarrow> string list \<Rightarrow> (string, string) Bug" where
  "demoBug n key changed tests jobs =
     \<lparr>Bug.ID = n, Key = key, Status = ''New'', LastChangeTime = changed,
      Summary = ''flaky test'', AffectsVersions = [''4.16''], FixVersions = [],
      TargetVersions = [], Components = [''Networking''], Labels = [],
      URL = ''https://issues.redhat.com/browse/'' @ key, Tests = tests, Jobs = jobs\<rparr>"

text \<open>
  An environment in which nothing fails: the warehouse answers the test query with
  \<open>testRows\<close>, the job query with \<open>jobRows\<close> and the triage query with \<open>triageRows\<close>;
  every \<open>range\<close> visits its map back to front; the wall clock reads \<open>now\<close>
  throughout.
\<close>

definition demoEnv ::
  "time \<Rightarrow> bigQueryBug list \<Rightarrow> bigQueryBug list \<Rightarrow> bigQueryBug list \<Rightarrow> (string, string) Env" where
  "demoEnv now testRows jobRows triRows =
     \<lparr>LoadTestCache = Inr demoTestCache,
      LoadProwJobCache = Inr demoJobCache,
      listTriagesErr = None,
      readTestBugs = Inr (Iterator testRows None),
      readJobBugs = Inr (Iterator jobRows None),
      readTriageBugs = (\<lambda>keys. Inr (Iterator triRows None)),
      clockTestBugs = (\<lambda>i. now),
      clockJobBugs = (\<lambda>i. now),
      clockTriageBugs = (\<lambda>i. now),
      urlAuthority = acceptAuthority,
      rangeJobBugs = rev,
      rangeTriageBugs = rev,
      rangeAllBugs = rev,
      createErr = (\<lambda>bug. None),
      replaceTestsErr = (\<lambda>bug. None),
      replaceJobsErr = (\<lambda>bug. None),
      deleteErr = None,
      firstErr = (\<lambda>url. None),
      saveErr = (\<lambda>t. None)\<rparr>"


definition demoLog :: "event list" where
  "demoLog =
     [Log DebugLevel ''querySQL'', Log InfoLevel ''Loaded test bugs'',
      Log DebugLevel ''querySQL'', Log InfoLevel ''Loaded job bugs'',
      Log DebugLevel ''querySQL'', Log InfoLevel ''Loaded triage bugs'']"



text \<open>
  A store with ticket 5 and two triages: the first is linked to ticket 5 but its URL
  was changed to that of a ticket the warehouse does not report; the second carries the
  URL of ticket 5 and is not linked yet.
\<close>

definition demoTriage :: "uint \<Rightarrow> string \<Rightarrow> uint option \<Rightarrow> (string, string) Bug option \<Rightarrow> (string, string) Triage" where
  "demoTriage n key link loaded =
     \<lparr>Triage.ID = n, URL = ''https://issues.redhat.com/browse/'' @ key,
      Description = ''regression'', BugID = link, Bug = loaded\<rparr>"

definition demoTriageWorld :: "(string, string) World" where
  "demoTriageWorld =
     \<lparr>bugRows = [demoBug 5 ''OCPBUGS-5'' 1700000000 [''test 1: unit-test-foo''] []],
      triageRows = [demoTriage 1 ''OCPBUGS-9'' (Some 5) None, demoTriage 2 ''OCPBUGS-5'' None None],
      errors = [], logged = []\<rparr>"

definition demoTriageFetched :: "(string, string) Fetched" where
  "demoTriageFetched =
     \<lparr>fetchedTriages =
        [demoTriage 1 ''OCPBUGS-9'' (Some 5) (Some (demoBug 5 ''OCPBUGS-5'' 1700000000 [] [])),
         demoTriage 2 ''OCPBUGS-5'' None None],
      fetchedTestBugs = [(5, demoBug 5 ''OCPBUGS-5'' 1700000000 [''test 1: unit-test-foo''] [])],
      fetchedJobBugs = [], fetchedTriageBugs = []\<rparr>"

definition demoTriageWorldAfter :: "(string, string) World" where
  "demoTriageWorldAfter =
     \<lparr>bugRows = [demoBug 5 ''OCPBUGS-5'' 1700000000 [''test 1: unit-test-foo''] []],
      triageRows = [demoTriage 1 ''OCPBUGS-9'' (Some 5) None, demoTriage 2 ''OCPBUGS-5'' (Some 5) None],
      errors = [],
      logged = demoLog @
        [Log InfoLevel ''Loaded all job bugs'',
         Log InfoLevel ''created or updated bugs'',
         Log InfoLevel ''deleted stale bugs'',
         Log InfoLevel ''ensuring triages have correct refs to their bugs'',
         Log WarnLevel ''error looking up bug which should exist by this point: https://issues.redhat.com/browse/OCPBUGS-9'',
         Log InfoLevel ''linking triage to bug'']\<rparr>"

section \<open>Properties of the job artifact scanner\<close>

lemma scanObjects_truncates:
  "length files \<le> m \<Longrightarrow> m < length files + length names \<Longrightarrow>
   scanObjects m files names fin = Inr (take m (files @ names), True)"
proof (induction names arbitrary: files)
  case Nil
  then show ?case by simp
next
  case (Cons a names)
  show ?case
  proof (cases "m \<le> length files")
    case True
    with Cons.prems have "length files = m" by simp
    then show ?thesis by simp
  next
    case False
    with Cons.prems have "length (files @ [a]) \<le> m" "m < length (files @ [a]) + length names"
      by simp_all
    from Cons.IH [OF this] False show ?thesis by simp
  qed
qed

lemma scanObjects_complete:
  "length files + length names \<le> m \<Longrightarrow>
   scanObjects m files names None = Inr (files @ names, False)"
proof (induction names arbitrary: files)
  case Nil
  then show ?case by simp
next
  case (Cons a names)
  then have "length (files @ [a]) + length names \<le> m" by simp
  from Cons.IH [OF this] Cons.prems show ?case by simp
qed

lemma scanObjects_truncated_only_beyond:
  "scanObjects m files names fin = Inr (fs, True) \<Longrightarrow> length files \<le> m \<Longrightarrow>
   m < length files + length names \<and> fs = take m (files @ names)"
proof (induction names arbitrary: files)
  case Nil
  then show ?case by (cases fin) simp_all
next
  case (Cons a names)
  show ?case
  proof (cases "m \<le> length files")
    case True
    with Cons.prems show ?thesis by simp
  next
    case False
    with Cons.prems have "scanObjects m (files @ [a]) names fin = Inr (fs, True)"
      and "length (files @ [a]) \<le> m" by simp_all
    from Cons.IH [OF this] show ?thesis by simp
  qed
qed


text \<open>
  Claim C5 (truncation signalling). When the listing of the job run's prefix yields
  strictly more objects than \<open>maxJobFilesToScan\<close>, \<open>getJobRunFiles\<close> returns no
  error: it returns the first \<open>maxJobFilesToScan\<close> names, a list of exactly that
  length, with the truncated flag set. How the listing would have ended (normally or
  with an error) does not matter, since the loop leaves at the first object beyond the
  bound.
\<close>

theorem getJobRunFiles_truncation_signal:
  assumes "iter = Objects (GcsBucket q) (jobRunQuery q jobRunPath)"
    and "maxJobFilesToScan < length (yields iter)"
  shows "getJobRunFiles maxJobFilesToScan q jobRunPath
           = Inr (take maxJobFilesToScan (yields iter), True)
         \<and> length (take maxJobFilesToScan (yields iter)) = maxJobFilesToScan"
proof -
  have "scanObjects maxJobFilesToScan [] (yields iter) (final iter)
          = Inr (take maxJobFilesToScan ([] @ yields iter), True)"
    by (rule scanObjects_truncates) (use assms(2) in simp_all)
  with assms show ?thesis
    by (simp add: getJobRunFiles_def Let_def)
qed

theorem getJobRunFiles_truncation_signal_witness:
  "getJobRunFiles 2 (demoQuery [''logs/a'', ''logs/b'', ''logs/c''] (Some (Err ''timeout'')) None) ''logs/''
     = Inr ([''logs/a'', ''logs/b''], True)"
  using getJobRunFiles_truncation_signal
    [of "Iterator [''logs/a'', ''logs/b'', ''logs/c''] (Some (Err ''timeout''))"
        "demoQuery [''logs/a'', ''logs/b'', ''logs/c''] (Some (Err ''timeout'')) None"
        "''logs/''" 2]
  by (simp add: demoQuery_def demoBucket_def)

text \<open>
  Claim C10 (boundary of the listing bound). When the listing ends normally after at
  most \<open>maxJobFilesToScan\<close> objects, all of them are returned and the truncated flag
  is false. The flag is true only when the listing yielded at least one object beyond
  the bound; the result is then the first \<open>maxJobFilesToScan\<close> names, so the object
  at position \<open>maxJobFilesToScan\<close>, whose retrieval ended the loop, is not part of it
  (object names being distinct).
\<close>

theorem getJobRunFiles_boundary:
  assumes "iter = Objects (GcsBucket q) (jobRunQuery q jobRunPath)"
  shows "(length (yields iter) \<le> maxJobFilesToScan \<and> final iter = None \<longrightarrow>
            getJobRunFiles maxJobFilesToScan q jobRunPath = Inr (yields iter, False))
         \<and> (getJobRunFiles maxJobFilesToScan q jobRunPath = Inr (files, True) \<longrightarrow>
              maxJobFilesToScan < length (yields iter)
              \<and> files = take maxJobFilesToScan (yields iter)
              \<and> length files = maxJobFilesToScan
              \<and> (distinct (yields iter) \<longrightarrow> yields iter ! maxJobFilesToScan \<notin> set files))"
proof (intro conjI impI)
  assume "length (yields iter) \<le> maxJobFilesToScan \<and> final iter = None"
  then have "scanObjects maxJobFilesToScan [] (yields iter) (final iter)
               = Inr ([] @ yields iter, False)"
    using scanObjects_complete [of "[]" "yields iter" maxJobFilesToScan] by simp
  with assms show "getJobRunFiles maxJobFilesToScan q jobRunPath = Inr (yields iter, False)"
    by (simp add: getJobRunFiles_def Let_def)
next
  assume r: "getJobRunFiles maxJobFilesToScan q jobRunPath = Inr (files, True)"
  with assms have "scanObjects maxJobFilesToScan [] (yields iter) (final iter) = Inr (files, True)"
    by (simp add: getJobRunFiles_def Let_def)
  from scanObjects_truncated_only_beyond [OF this]
  have b: "maxJobFilesToScan < length (yields iter)"
    and f: "files = take maxJobFilesToScan (yields iter)" by simp_all
  from b show "maxJobFilesToScan < length (yields iter)" .
  from f show "files = take maxJobFilesToScan (yields iter)" .
  from b f show "length files = maxJobFilesToScan" by simp
  show "yields iter ! maxJobFilesToScan \<notin> set files" if d: "distinct (yields iter)"
  proof
    assume "yields iter ! maxJobFilesToScan \<in> set files"
    with f obtain i where i: "i < maxJobFilesToScan" "i < length (yields iter)"
      and e: "yields iter ! i = yields iter ! maxJobFilesToScan"
      by (auto simp: in_set_conv_nth)
    from d i b e have "i = maxJobFilesToScan"
      by (simp add: nth_eq_iff_index_eq)
    with i show False by simp
  qed
qed

theorem getJobRunFiles_boundary_witness:
  "getJobRunFiles 2 (demoQuery [''logs/a'', ''logs/b''] None None) ''logs/''
     = Inr ([''logs/a'', ''logs/b''], False)
   \<and> getJobRunFiles 2 (demoQuery [''logs/a'', ''logs/b'', ''logs/c''] None None) ''logs/''
     = Inr ([''logs/a'', ''logs/b''], True)
   \<and> [''logs/a'', ''logs/b'', ''logs/c''] ! 2 \<notin> set [''logs/a'', ''logs/b'']"
proof -
  have t: "getJobRunFiles 2 (demoQuery [''logs/a'', ''logs/b'', ''logs/c''] None None) ''logs/''
             = Inr ([''logs/a'', ''logs/b''], True)"
    by (simp add: getJobRunFiles_def demoQuery_def demoBucket_def Let_def)
  have "getJobRunFiles 2 (demoQuery [''logs/a'', ''logs/b''] None None) ''logs/''
          = Inr ([''logs/a'', ''logs/b''], False)"
    using getJobRunFiles_boundary
      [of "Iterator [''logs/a'', ''logs/b''] None"
          "demoQuery [''logs/a'', ''logs/b''] None None" "''logs/''" 2]
    by (simp add: demoQuery_def demoBucket_def)
  moreover have "[''logs/a'', ''logs/b'', ''logs/c''] ! 2 \<notin> set [''logs/a'', ''logs/b'']"
    using t getJobRunFiles_boundary
      [of "Iterator [''logs/a'', ''logs/b'', ''logs/c''] None"
          "demoQuery [''logs/a'', ''logs/b'', ''logs/c''] None None" "''logs/''" 2
          "[''logs/a'', ''logs/b'']"]
    by (simp add: demoQuery_def demoBucket_def)
  ultimately show ?thesis using t by simp
qed

text \<open>
  Claim C6 (partial match on failure). \<open>getFileContentMatches\<close> has no error result;
  every failure is written into the artifact. Without a matcher the artifact carries
  the job run identifier and the artifact URL and nothing else. With a matcher, a
  failure to open the object gives the error string (the matcher was never called, so
  there is no payload), and a failure of the matcher gives the error string together
  with the payload the matcher returned.
\<close>

theorem getFileContentMatches_best_effort:
  fixes q :: "('r, 'm) JobArtifactQuery"
  defines "base \<equiv> \<lambda>root jobRunID filePath.
     \<lparr>JobRunID = FormatInt (sint (jobRunID :: 64 word)),
      ArtifactURL = artifactURL root filePath,
      MatchedContent = (None :: 'm option), Error = []\<rparr>"
  shows "(ContentMatcher q = None \<longrightarrow>
            getFileContentMatches root q jobRunID filePath = base root jobRunID filePath)
       \<and> (ContentMatcher q = Some GetMatches \<and> NewReader (GcsBucket q) filePath = Inl err \<longrightarrow>
            getFileContentMatches root q jobRunID filePath
              = (base root jobRunID filePath)\<lparr>Error := Error_msg err\<rparr>)
       \<and> (ContentMatcher q = Some GetMatches \<and> NewReader (GcsBucket q) filePath = Inr gcsReader
            \<and> GetMatches gcsReader = (matches, Some err) \<longrightarrow>
            getFileContentMatches root q jobRunID filePath
              = (base root jobRunID filePath)\<lparr>MatchedContent := matches, Error := Error_msg err\<rparr>)"
  by (simp add: getFileContentMatches_def emptyArtifact_def base_def)

theorem getFileContentMatches_best_effort_witness:
  "getFileContentMatches ''test-platform-results''
     (demoQuery [] None (Some (\<lambda>_. (Some ''line 1'', Some (Err ''unexpected EOF''))))) 42 ''logs/a''
   = \<lparr>JobRunID = ''42'',
      ArtifactURL = ''https://gcsweb-ci.apps.ci.l2s4.p1.openshiftapps.com/gcs/test-platform-results/logs/a'',
      MatchedContent = Some ''line 1'', Error = ''unexpected EOF''\<rparr>"
  using getFileContentMatches_best_effort
    [where q = "demoQuery [] None (Some (\<lambda>_. (Some ''line 1'', Some (Err ''unexpected EOF''))))"
       and root = "''test-platform-results''" and jobRunID = 42 and filePath = "''logs/a''"
       and GetMatches = "\<lambda>_. (Some ''line 1'', Some (Err ''unexpected EOF''))"
       and gcsReader = "()" and matches = "Some ''line 1''" and err = "Err ''unexpected EOF''"]
  by (simp add: demoQuery_def demoBucket_def artifactURL_def FormatInt_def digits10.simps
      digit_char_def)

section \<open>Properties of the materialized view refresher\<close>

lemma execsOf_append: "execsOf (xs @ ys) = execsOf xs @ execsOf ys"
  by (induction xs rule: execsOf.induct) simp_all

lemma errorsLogged_append: "errorsLogged (xs @ ys) = errorsLogged xs @ errorsLogged ys"
  by (induction xs rule: errorsLogged.induct) simp_all

lemma metricsObserved_append:
  "metricsObserved (xs @ ys) = metricsObserved xs @ metricsObserved ys"
  by (induction xs rule: metricsObserved.induct) simp_all

lemma probeMatview_quiet:
  "probeMatview dbc f v = (b, evs) \<Longrightarrow>
   execsOf evs = [] \<and> errorsLogged evs = [] \<and> metricsObserved evs = []"
  by (auto simp: probeMatview_def split: if_splits sum.splits)

lemma probeMatview_skip:
  "fst (probeMatview dbc f v) = skipsAsPopulated dbc f v"
  by (simp add: probeMatview_def skipsAsPopulated_def split: sum.splits)

text \<open>
  Claim C7, as stated, fails: a view taken from the channel while
  \<open>refreshMatviewOnlyIfEmpty\<close> is set and whose count query reports rows is skipped,
  and no refresh of either kind is attempted for it.
\<close>

theorem refreshMatview_populated_counterexample:
  "refreshMatview populatedDB True [''prow_test_report_7d_matview'']
     = [RawScan ''SELECT COUNT(*) FROM prow_test_report_7d_matview'',
        Log InfoLevel ''skipping matview refresh as it appears to be populated'']"
  by (simp add: refreshMatview_def refreshOneMatview_def probeMatview_def populatedDB_def
      countSQL_def)

text \<open>
  Claim C7, amended: for every view the worker handles and does not skip as already
  populated, the concurrent refresh is executed first; the blocking refresh of the same
  view is executed, after it and in the same pass of the loop body, exactly when the
  concurrent one failed; the timing metric of the view is observed exactly when one of
  the two succeeded; and an error is logged exactly when both failed.
\<close>

theorem refreshOneMatview_fallback:
  assumes "\<not> skipsAsPopulated dbc refreshMatviewOnlyIfEmpty matView"
  defines "trace \<equiv> refreshOneMatview dbc refreshMatviewOnlyIfEmpty matView"
  shows "execsOf trace =
           (if Exec dbc (refreshConcurrentlySQL matView) = None
            then [refreshConcurrentlySQL matView]
            else [refreshConcurrentlySQL matView, refreshSQL matView])
       \<and> metricsObserved trace =
           (if Exec dbc (refreshConcurrentlySQL matView) = None
               \<or> Exec dbc (refreshSQL matView) = None
            then [matView] else [])
       \<and> errorsLogged trace =
           (if Exec dbc (refreshConcurrentlySQL matView) \<noteq> None
               \<and> Exec dbc (refreshSQL matView) \<noteq> None
            then [''error refreshing materialized view''] else [])"
proof -
  obtain b evs where p: "probeMatview dbc refreshMatviewOnlyIfEmpty matView = (b, evs)"
    by (cases "probeMatview dbc refreshMatviewOnlyIfEmpty matView")
  with assms(1) probeMatview_skip [of dbc refreshMatviewOnlyIfEmpty matView]
  have nb: "\<not> b" by simp
  from probeMatview_quiet [OF p]
  have q: "execsOf evs = []" "errorsLogged evs = []" "metricsObserved evs = []" by simp_all
  from p nb have t: "trace = evs @ tryRefresh dbc matView"
    by (simp add: trace_def refreshOneMatview_def)
  have "execsOf trace =
           (if Exec dbc (refreshConcurrentlySQL matView) = None
            then [refreshConcurrentlySQL matView]
            else [refreshConcurrentlySQL matView, refreshSQL matView])"
    by (simp add: t execsOf_append q tryRefresh_def split: option.splits)
  moreover have "metricsObserved trace =
           (if Exec dbc (refreshConcurrentlySQL matView) = None
               \<or> Exec dbc (refreshSQL matView) = None
            then [matView] else [])"
    by (simp add: t metricsObserved_append q tryRefresh_def split: option.splits)
  moreover have "errorsLogged trace =
           (if Exec dbc (refreshConcurrentlySQL matView) \<noteq> None
               \<and> Exec dbc (refreshSQL matView) \<noteq> None
            then [''error refreshing materialized view''] else [])"
    by (simp add: t errorsLogged_append q tryRefresh_def split: option.splits)
  ultimately show ?thesis by blast
qed

theorem refreshOneMatview_fallback_witness:
  "execsOf (refreshOneMatview noUniqueIndexDB True ''prow_test_report_7d_matview'')
     = [''REFRESH MATERIALIZED VIEW CONCURRENTLY prow_test_report_7d_matview'',
        ''REFRESH MATERIALIZED VIEW prow_test_report_7d_matview'']
   \<and> metricsObserved (refreshOneMatview noUniqueIndexDB True ''prow_test_report_7d_matview'')
     = [''prow_test_report_7d_matview'']
   \<and> errorsLogged (refreshOneMatview noUniqueIndexDB True ''prow_test_report_7d_matview'') = []"
proof -
  have h: "\<not> skipsAsPopulated noUniqueIndexDB True ''prow_test_report_7d_matview''"
    by (simp add: skipsAsPopulated_def noUniqueIndexDB_def)
  from refreshOneMatview_fallback [OF h] show ?thesis
    by (simp add: noUniqueIndexDB_def refreshConcurrentlySQL_def refreshSQL_def)
qed

section \<open>Properties of the bug mapping reconciler: ticket URL and ticket key\<close>

lemma unescape_plain: "CHR ''%'' \<notin> set s \<Longrightarrow> unescape s = Inr s"
  by (induction s) auto

lemma Split_slash_plain: "CHR ''/'' \<notin> set s \<Longrightarrow> Split_slash s = [s]"
  by (induction s) auto

lemma plainKey_iff:
  "plainKey k \<longleftrightarrow>
     (\<forall>c \<in> set k. \<not> (of_char c :: nat) < 32 \<and> (of_char c :: nat) \<noteq> 127
        \<and> c \<noteq> CHR ''/'' \<and> c \<noteq> CHR ''?'' \<and> c \<noteq> CHR ''#'' \<and> c \<noteq> CHR ''%'')"
  by (auto simp: plainKey_def stringContainsCTLByte_def list_ex_iff list_all_iff)

lemma url_Parse_canonical:
  assumes a: "parseAuthority ''issues.redhat.com'' = None" and k: "plainKey k"
  shows "url_Parse parseAuthority (''https://issues.redhat.com/browse/'' @ k) = Inr (''/browse/'' @ k)"
proof -
  from k have c: "\<not> stringContainsCTLByte k"
    and h: "\<forall>c \<in> set k. c \<noteq> CHR ''#''" and q: "\<forall>c \<in> set k. c \<noteq> CHR ''?''"
    and p: "CHR ''%'' \<notin> set k"
    by (auto simp: plainKey_def list_all_iff)
  have u: "before (CHR ''#'') (''https://issues.redhat.com/browse/'' @ k)
             = ''https://issues.redhat.com/browse/'' @ k"
    using h by (simp add: before_def takeWhile_eq_all_conv)
  have f: "after (CHR ''#'') (''https://issues.redhat.com/browse/'' @ k) = []"
  proof -
    from h have d: "dropWhile (\<lambda>c. c \<noteq> CHR ''#'') k = []" by simp
    show ?thesis by (simp add: after_def d)
  qed
  have s: "getScheme (''https://issues.redhat.com/browse/'' @ k)
             = Inr (''https'', ''//issues.redhat.com/browse/'' @ k)"
    by (simp add: getScheme_def isLetter_def isSchemeOther_def)
  have r: "before (CHR ''?'') (''//issues.redhat.com/browse/'' @ k)
             = ''//issues.redhat.com/browse/'' @ k"
    using q by (simp add: before_def takeWhile_eq_all_conv)
  have ctl: "\<not> stringContainsCTLByte (''https://issues.redhat.com/browse/'' @ k)"
    using c by (simp add: stringContainsCTLByte_def)
  have ne: "''https://issues.redhat.com/browse/'' @ k \<noteq> ''*''" by simp
  have au: "before (CHR ''/'') (drop 2 (''//issues.redhat.com/browse/'' @ k)) = ''issues.redhat.com''"
    by (simp add: before_def)
  have re: "dropWhile (\<lambda>c. c \<noteq> CHR ''/'') (drop 2 (''//issues.redhat.com/browse/'' @ k))
              = ''/browse/'' @ k"
    by simp
  have hp: "hasPrefix (''//issues.redhat.com/browse/'' @ k) ''/''"
    "hasPrefix (''//issues.redhat.com/browse/'' @ k) ''//''"
    by (simp_all add: hasPrefix_def)
  have ue: "unescape (''/browse/'' @ k) = Inr (''/browse/'' @ k)"
    by (rule unescape_plain) (use p in simp)
  have "url_parse parseAuthority (''https://issues.redhat.com/browse/'' @ k) = Inr (''/browse/'' @ k)"
    unfolding url_parse_def s using ctl ne
    by (simp only: if_False sum.case prod.case Let_def r hp au re a option.case ue
        simp_thms list.simps if_True)
  then show ?thesis
    unfolding url_Parse_def u f by (simp add: Let_def)
qed

lemma Split_slash_browse:
  "CHR ''/'' \<notin> set k \<Longrightarrow> Split_slash (''/browse/'' @ k) = [[], ''browse'', k]"
  by (simp add: Split_slash_plain)

text \<open>
  Claim C9, as stated, fails: a key without a path separator that holds a question mark
  comes back cut at the question mark, because \<open>url.Parse\<close> takes the rest for the
  query. (A number sign cuts the key in the same way, and a percent sign is decoded or
  refused.)
\<close>

theorem parseBugKeyFromURL_roundtrip_counterexample:
  "CHR ''/'' \<notin> set ''A?b''
   \<and> parseBugKeyFromURL acceptAuthority
        (Bug.URL (bigQueryBugToModel 0 (demoRow ''17'' ''A?b'' ''some test'' True) :: (unit, unit) Bug))
      = Inr ''A''"
  by (simp add: parseBugKeyFromURL_def url_Parse_def url_parse_def before_def after_def
      getScheme_def stringContainsCTLByte_def isLetter_def isSchemeOther_def hasPrefix_def
      acceptAuthority_def bigQueryBugToModel_def demoRow_def Let_def)

text \<open>
  Claim C9, amended: for every ticket key without a control byte and without any of the
  bytes \<open>/\<close>, \<open>?\<close>, \<open>#\<close> and \<open>%\<close>, \<open>parseBugKeyFromURL\<close> applied to the URL that
  \<open>bigQueryBugToModel\<close> builds from the key returns exactly the key (the host
  \<open>issues.redhat.com\<close> being one that \<open>url.Parse\<close> accepts). And a URL that
  \<open>url.Parse\<close> refuses, or whose path has fewer than three segments or a second to
  last segment other than \<open>browse\<close>, gives an error.
\<close>

theorem parseBugKeyFromURL_roundtrip:
  assumes "parseAuthority ''issues.redhat.com'' = None"
  shows "(plainKey (bigQueryBug.Key bqBug) \<longrightarrow>
            parseBugKeyFromURL parseAuthority
              (Bug.URL (bigQueryBugToModel now bqBug :: ('t, 'j) Bug)) = Inr (bigQueryBug.Key bqBug))
       \<and> (url_Parse parseAuthority jiraURL = Inl err \<longrightarrow>
            parseBugKeyFromURL parseAuthority jiraURL = Inl err)
       \<and> (url_Parse parseAuthority jiraURL = Inr path
            \<and> (length (Split_slash path) < 3
                \<or> Split_slash path ! (length (Split_slash path) - 2) \<noteq> ''browse'') \<longrightarrow>
            parseBugKeyFromURL parseAuthority jiraURL = Inl (Err ''invalid Jira URL format''))"
proof (intro conjI impI)
  assume k: "plainKey (bigQueryBug.Key bqBug)"
  then have "CHR ''/'' \<notin> set (bigQueryBug.Key bqBug)"
    by (auto simp: plainKey_iff)
  then have "Split_slash (''/browse/'' @ bigQueryBug.Key bqBug)
               = [[], ''browse'', bigQueryBug.Key bqBug]"
    by (rule Split_slash_browse)
  with url_Parse_canonical [where parseAuthority = parseAuthority, OF assms k]
  show "parseBugKeyFromURL parseAuthority
          (Bug.URL (bigQueryBugToModel now bqBug :: ('t, 'j) Bug)) = Inr (bigQueryBug.Key bqBug)"
    by (simp add: parseBugKeyFromURL_def bigQueryBugToModel_def Let_def)
next
  assume "url_Parse parseAuthority jiraURL = Inl err"
  then show "parseBugKeyFromURL parseAuthority jiraURL = Inl err"
    by (simp add: parseBugKeyFromURL_def)
next
  assume "url_Parse parseAuthority jiraURL = Inr path
            \<and> (length (Split_slash path) < 3
                \<or> Split_slash path ! (length (Split_slash path) - 2) \<noteq> ''browse'')"
  then show "parseBugKeyFromURL parseAuthority jiraURL = Inl (Err ''invalid Jira URL format'')"
    by (auto simp: parseBugKeyFromURL_def Let_def)
qed

theorem parseBugKeyFromURL_roundtrip_witness:
  "parseBugKeyFromURL acceptAuthority
     (Bug.URL (bigQueryBugToModel 0 (demoRow ''17'' ''OCPBUGS-1234'' ''some test'' True) :: (unit, unit) Bug))
     = Inr ''OCPBUGS-1234''
   \<and> parseBugKeyFromURL acceptAuthority ''https://issues.redhat.com/issues/OCPBUGS-1234''
     = Inl (Err ''invalid Jira URL format'')"
proof -
  have a: "acceptAuthority ''issues.redhat.com'' = None"
    by (simp add: acceptAuthority_def)
  have k: "plainKey (bigQueryBug.Key (demoRow ''17'' ''OCPBUGS-1234'' ''some test'' True))"
    by (simp add: plainKey_def stringContainsCTLByte_def demoRow_def)
  have p: "url_Parse acceptAuthority ''https://issues.redhat.com/issues/OCPBUGS-1234''
             = Inr ''/issues/OCPBUGS-1234''"
    by (simp add: url_Parse_def url_parse_def before_def after_def getScheme_def
        stringContainsCTLByte_def isLetter_def isSchemeOther_def hasPrefix_def
        acceptAuthority_def Let_def)
  have s: "Split_slash ''/issues/OCPBUGS-1234'' ! (length (Split_slash ''/issues/OCPBUGS-1234'') - 2)
             \<noteq> ''browse''"
    by simp
  from parseBugKeyFromURL_roundtrip
    [where parseAuthority = acceptAuthority
       and bqBug = "demoRow ''17'' ''OCPBUGS-1234'' ''some test'' True" and now = 0
       and jiraURL = "''https://issues.redhat.com/issues/OCPBUGS-1234''"
       and path = "''/issues/OCPBUGS-1234''", where ?'t = unit and ?'j = unit, OF a] k p s
  show ?thesis by (simp add: demoRow_def)
qed

section \<open>Properties of the bug mapping reconciler: warehouse rows\<close>

lemma rowLoop_append:
  "rowLoop body clock i (rows @ rows') st
     = rowLoop body clock (i + length rows) rows' (rowLoop body clock i rows st)"
  by (induction rows arbitrary: i st) simp_all

text \<open>
  Claim C8, as stated, fails for a missing identifier: a row whose \<open>jira_id\<close> is the
  empty string is skipped by the guard at the head of the loop body, and nothing is
  appended to the accumulated errors.
\<close>

theorem missing_id_row_counterexample:
  "JiraID (demoRow [] ''OCPBUGS-1234'' ''unit-test-foo'' True) = []
   \<and> testRow 0 demoTestCache (demoRow [] ''OCPBUGS-1234'' ''unit-test-foo'' True) ([], emptyWorld)
       = ([], emptyWorld)
   \<and> errors emptyWorld = []"
  by (simp add: testRow_def demoRow_def emptyWorld_def)

text \<open>
  Claim C8, amended: in the row loops of \<open>getTestBugMappings\<close> and
  \<open>getJobBugMappings\<close>, a row whose identifier string is empty is skipped and leaves
  the working set, the accumulated errors and the log as they are; a row with an
  identifier and a matched name whose identifier fails numeric parsing is skipped and
  adds exactly one error to the accumulated errors. In neither case does the function
  fail: whatever the rows are, a query whose iterator ends normally returns a working
  set.
\<close>

theorem unparseable_id_rows:
  fixes tw :: "('t, 'j) World" and testCache :: "string \<rightharpoonup> 't" and jobCache :: "string \<rightharpoonup> 'j"
  shows "(JiraID row = [] \<longrightarrow>
            testRow now testCache row (bugs, tw) = (bugs, tw)
          \<and> jobRow now jobCache row (bugs, tw) = (bugs, tw))
       \<and> (JiraID row \<noteq> [] \<and> LinkName row \<noteq> [] \<and> Atoi (JiraID row) = Inl err \<longrightarrow>
            testRow now testCache row (bugs, tw)
              = (bugs, tw\<lparr>errors := errors tw
                   @ [Some (WithMessage err (''failed to convert jira id '' @ JiraID row))]\<rparr>)
          \<and> jobRow now jobCache row (bugs, tw)
              = (bugs, tw\<lparr>errors := errors tw
                   @ [Some (WithMessage err (''failed to convert jira id '' @ JiraID row))]\<rparr>))
       \<and> (\<exists>found tw'. getTestBugMappings clock (Inr (Iterator rows None)) testCache tw
                          = (Inr found, tw'))
       \<and> (\<exists>found tw'. getJobBugMappings clock (Inr (Iterator rows None)) jobCache tw
                          = (Inr found, tw'))"
  by (simp add: testRow_def jobRow_def appendError_def getTestBugMappings_def
      getJobBugMappings_def runQuery_def Let_def split: prod.splits)

theorem unparseable_id_rows_witness:
  "testRow 0 demoTestCache (demoRow ''12x4'' ''OCPBUGS-1234'' ''unit-test-foo'' True) ([], emptyWorld)
     = ([], emptyWorld\<lparr>errors :=
          [Some (Err ''failed to convert jira id 12x4: strconv.Atoi: parsing 12x4: invalid syntax'')]\<rparr>)
   \<and> jobRow 0 demoJobCache (demoRow [] ''OCPBUGS-1234'' ''periodic-job-x'' True) ([], emptyWorld)
     = ([], emptyWorld)"
proof -
  have a: "Atoi (JiraID (demoRow ''12x4'' ''OCPBUGS-1234'' ''unit-test-foo'' True))
             = Inl (Err ''strconv.Atoi: parsing 12x4: invalid syntax'')"
    by (simp add: Atoi_def isDigit_def demoRow_def)
  have n: "JiraID (demoRow ''12x4'' ''OCPBUGS-1234'' ''unit-test-foo'' True) \<noteq> []"
    "LinkName (demoRow ''12x4'' ''OCPBUGS-1234'' ''unit-test-foo'' True) \<noteq> []"
    "JiraID (demoRow [] ''OCPBUGS-1234'' ''periodic-job-x'' True) = []"
    by (simp_all add: demoRow_def)
  from unparseable_id_rows
    [where row = "demoRow ''12x4'' ''OCPBUGS-1234'' ''unit-test-foo'' True" and now = 0
       and testCache = demoTestCache and jobCache = demoJobCache and bugs = "[]"
       and tw = emptyWorld
       and err = "Err ''strconv.Atoi: parsing 12x4: invalid syntax''"] a n(1,2)
  have "testRow 0 demoTestCache (demoRow ''12x4'' ''OCPBUGS-1234'' ''unit-test-foo'' True) ([], emptyWorld)
     = ([], emptyWorld\<lparr>errors :=
          [Some (Err ''failed to convert jira id 12x4: strconv.Atoi: parsing 12x4: invalid syntax'')]\<rparr>)"
    by (simp add: WithMessage_def emptyWorld_def demoRow_def)
  moreover from unparseable_id_rows
    [where row = "demoRow [] ''OCPBUGS-1234'' ''periodic-job-x'' True" and now = 0
       and testCache = demoTestCache and jobCache = demoJobCache and bugs = "[]"
       and tw = emptyWorld] n(3)
  have "jobRow 0 demoJobCache (demoRow [] ''OCPBUGS-1234'' ''periodic-job-x'' True) ([], emptyWorld)
     = ([], emptyWorld)"
    by simp
  ultimately show ?thesis by simp
qed

section \<open>Properties of the bug mapping reconciler: the merge\<close>

lemma keyedByID_find:
  "keyedByID js \<Longrightarrow>
   find (\<lambda>(k', b). Bug.ID b = k) js = map_option (Pair k) (map_of js k)"
  by (induction js) (auto simp: keyedByID_def)

lemma map_of_mergeJobBugs:
  "distinct (map (\<lambda>(k, b). Bug.ID b) js) \<Longrightarrow>
   map_of (mergeJobBugs allBugs js) k =
     (case find (\<lambda>(k', b). Bug.ID b = k) js of
        None \<Rightarrow> map_of allBugs k
      | Some (k', b) \<Rightarrow>
          (case map_of allBugs k of None \<Rightarrow> Some b | Some a \<Rightarrow> Some (a\<lparr>Jobs := Jobs b\<rparr>)))"
proof (induction js arbitrary: allBugs)
  case Nil
  then show ?case by simp
next
  case (Cons e js)
  obtain k' b where e: "e = (k', b)" by (cases e)
  from Cons.prems e have d: "distinct (map (\<lambda>(k, b). Bug.ID b) js)"
    and n: "Bug.ID b \<notin> (\<lambda>(k, b). Bug.ID b) ` set js" by simp_all
  from n have nf: "find (\<lambda>(k', b'). Bug.ID b' = Bug.ID b) js = None"
    by (force simp: find_None_iff image_iff)
  show ?case
  proof (cases "Bug.ID b = k")
    case True
    with nf have "find (\<lambda>(k', b'). Bug.ID b' = k) js = None" by simp
    with Cons.IH [OF d] e True show ?thesis
      by (auto simp: map_of_map_entry update_conv' split: option.splits)
  next
    case False
    with Cons.IH [OF d] e show ?thesis
      by (auto simp: map_of_map_entry update_conv' split: option.splits)
  qed
qed

lemma map_of_mergeTriageBugs:
  "distinct (map (\<lambda>(k, b). Bug.ID b) ts) \<Longrightarrow>
   map_of (mergeTriageBugs allBugs ts) k =
     (case map_of allBugs k of
        Some a \<Rightarrow> Some a
      | None \<Rightarrow> map_option snd (find (\<lambda>(k', b). Bug.ID b = k) ts))"
proof (induction ts arbitrary: allBugs)
  case Nil
  then show ?case by (simp split: option.splits)
next
  case (Cons e ts)
  obtain k' b where e: "e = (k', b)" by (cases e)
  from Cons.prems e have d: "distinct (map (\<lambda>(k, b). Bug.ID b) ts)"
    and n: "Bug.ID b \<notin> (\<lambda>(k, b). Bug.ID b) ` set ts" by simp_all
  from n have nf: "find (\<lambda>(k', b'). Bug.ID b' = Bug.ID b) ts = None"
    by (force simp: find_None_iff image_iff)
  show ?case
  proof (cases "Bug.ID b = k")
    case True
    with nf have "find (\<lambda>(k', b'). Bug.ID b' = k) ts = None" by simp
    with Cons.IH [OF d] e True show ?thesis
      by (auto simp: update_conv' split: option.splits)
  next
    case False
    with Cons.IH [OF d] e show ?thesis
      by (auto simp: update_conv' split: option.splits)
  qed
qed

lemma keyedByID_ids: "keyedByID m \<Longrightarrow> map (\<lambda>(k, b). Bug.ID b) m = map fst m"
  by (induction m) (auto simp: keyedByID_def)

lemma keyedByID_mset: "mset m' = mset m \<Longrightarrow> keyedByID m \<Longrightarrow> keyedByID m'"
  by (auto simp: keyedByID_def list_all_iff dest!: mset_eq_setD)

lemma distinct_keys_mset:
  "mset m' = mset m \<Longrightarrow> distinct (map fst m) \<Longrightarrow> distinct (map fst m')"
  by (metis mset_eq_imp_distinct_iff mset_map)

lemma map_of_mset:
  "mset m' = mset m \<Longrightarrow> distinct (map fst m) \<Longrightarrow> map_of m' = map_of m"
  by (metis distinct_keys_mset map_of_inject_set mset_eq_setD)

text \<open>
  Claim C1 (merge precedence). Whatever the order in which the two \<open>range\<close> loops
  visit the job map and the triage map: a ticket in both the test map and the job map
  ends as the record of the test map with its \<open>Jobs\<close> replaced by the \<open>Jobs\<close> of the
  job map's record (empty or not), so its \<open>Tests\<close> are those of the test map; a
  ticket only in the job map ends as the job map's record; and a record present after
  the job loop is the record of the final map, whatever the triage map holds.
\<close>

theorem merge_precedence:
  assumes "keyedByID jobBugs" and "distinct (map fst jobBugs)"
    and "keyedByID triageBugs" and "distinct (map fst triageBugs)"
    and "visitsAll (rangeJobBugs env) jobBugs" and "visitsAll (rangeTriageBugs env) triageBugs"
  shows "(map_of testBugs k = Some t \<and> map_of jobBugs k = Some j \<longrightarrow>
            map_of (mergeBugs env testBugs jobBugs triageBugs) k = Some (t\<lparr>Jobs := Jobs j\<rparr>)
            \<and> Jobs (t\<lparr>Jobs := Jobs j\<rparr>) = Jobs j \<and> Tests (t\<lparr>Jobs := Jobs j\<rparr>) = Tests t)
       \<and> (map_of testBugs k = None \<and> map_of jobBugs k = Some j \<longrightarrow>
            map_of (mergeBugs env testBugs jobBugs triageBugs) k = Some j)
       \<and> (map_of (mergeJobBugs testBugs (rangeJobBugs env jobBugs)) k = Some b \<longrightarrow>
            map_of (mergeBugs env testBugs jobBugs triageBugs) k = Some b)"
proof -
  let ?js = "rangeJobBugs env jobBugs" and ?ts = "rangeTriageBugs env triageBugs"
  from assms have pj: "mset ?js = mset jobBugs" and pt: "mset ?ts = mset triageBugs"
    by (simp_all add: visitsAll_def)
  have kj: "keyedByID ?js" and kt: "keyedByID ?ts"
    using pj pt assms(1,3) by (auto intro: keyedByID_mset)
  have dj: "distinct (map (\<lambda>(k, b). Bug.ID b) ?js)"
    using distinct_keys_mset [OF pj assms(2)] by (simp add: keyedByID_ids [OF kj])
  have dt: "distinct (map (\<lambda>(k, b). Bug.ID b) ?ts)"
    using distinct_keys_mset [OF pt assms(4)] by (simp add: keyedByID_ids [OF kt])
  have fj: "find (\<lambda>(k', b). Bug.ID b = k) ?js = map_option (Pair k) (map_of jobBugs k)"
    using keyedByID_find [OF kj] map_of_mset [OF pj assms(2)] by simp
  have aj: "map_of (mergeJobBugs testBugs ?js) k =
              (case map_of jobBugs k of
                 None \<Rightarrow> map_of testBugs k
               | Some j \<Rightarrow> (case map_of testBugs k of
                              None \<Rightarrow> Some j | Some a \<Rightarrow> Some (a\<lparr>Jobs := Jobs j\<rparr>)))"
    by (simp add: map_of_mergeJobBugs [OF dj] fj split: option.splits)
  have at: "map_of (mergeBugs env testBugs jobBugs triageBugs) k =
              (case map_of (mergeJobBugs testBugs ?js) k of
                 Some a \<Rightarrow> Some a
               | None \<Rightarrow> map_option snd (find (\<lambda>(k', b). Bug.ID b = k) ?ts))"
    by (simp add: mergeBugs_def map_of_mergeTriageBugs [OF dt])
  show ?thesis
    by (simp add: at aj)
qed

theorem merge_precedence_witness:
  "map_of (mergeBugs (demoEnv 0 [] [] [])
      [(12345, demoBug 12345 ''OCPBUGS-1'' 7 [''unit-test-foo''] [''periodic-job-x''])]
      [(12345, demoBug 12345 ''OCPBUGS-1'' 8 [] []), (777, demoBug 777 ''OCPBUGS-2'' 8 [] [''job-y''])]
      [(12345, demoBug 12345 ''OCPBUGS-1'' 9 [] []), (777, demoBug 777 ''OCPBUGS-2'' 9 [] [])]) 12345
     = Some (demoBug 12345 ''OCPBUGS-1'' 7 [''unit-test-foo''] [])
   \<and> map_of (mergeBugs (demoEnv 0 [] [] [])
      [(12345, demoBug 12345 ''OCPBUGS-1'' 7 [''unit-test-foo''] [''periodic-job-x''])]
      [(12345, demoBug 12345 ''OCPBUGS-1'' 8 [] []), (777, demoBug 777 ''OCPBUGS-2'' 8 [] [''job-y''])]
      [(12345, demoBug 12345 ''OCPBUGS-1'' 9 [] []), (777, demoBug 777 ''OCPBUGS-2'' 9 [] [])]) 777
     = Some (demoBug 777 ''OCPBUGS-2'' 8 [] [''job-y''])"
proof -
  let ?env = "demoEnv 0 [] [] []"
  let ?tb = "[(12345 :: uint, demoBug 12345 ''OCPBUGS-1'' 7 [''unit-test-foo''] [''periodic-job-x''])]"
  let ?jb = "[(12345 :: uint, demoBug 12345 ''OCPBUGS-1'' 8 [] []), (777, demoBug 777 ''OCPBUGS-2'' 8 [] [''job-y''])]"
  let ?rb = "[(12345 :: uint, demoBug 12345 ''OCPBUGS-1'' 9 [] []), (777, demoBug 777 ''OCPBUGS-2'' 9 [] [])]"
  have h: "keyedByID ?jb" "distinct (map fst ?jb)" "keyedByID ?rb" "distinct (map fst ?rb)"
    "visitsAll (rangeJobBugs ?env) ?jb" "visitsAll (rangeTriageBugs ?env) ?rb"
    by (simp_all add: keyedByID_def demoBug_def visitsAll_def demoEnv_def)
  have "map_of (mergeBugs ?env ?tb ?jb ?rb) 12345
          = Some (demoBug 12345 ''OCPBUGS-1'' 7 [''unit-test-foo''] [])"
    using merge_precedence [OF h, where testBugs = ?tb and k = 12345
        and t = "demoBug 12345 ''OCPBUGS-1'' 7 [''unit-test-foo''] [''periodic-job-x'']"
        and j = "demoBug 12345 ''OCPBUGS-1'' 8 [] []"]
    by (simp add: demoBug_def)
  moreover have "map_of (mergeBugs ?env ?tb ?jb ?rb) 777
          = Some (demoBug 777 ''OCPBUGS-2'' 8 [] [''job-y''])"
    using merge_precedence [OF h, where testBugs = ?tb and k = 777
        and j = "demoBug 777 ''OCPBUGS-2'' 8 [] [''job-y'']"]
    by simp
  ultimately show ?thesis by simp
qed

section \<open>Properties of the bug mapping reconciler: \<open>Load\<close>\<close>

subsection \<open>What the steps leave alone\<close>

lemma rowLoop_invariant:
  assumes "\<And>now row st. P st \<Longrightarrow> P (body now row st)" and "P st"
  shows "P (rowLoop body clock i rows st)"
  using assms(2) by (induction rows arbitrary: i st) (simp_all add: assms(1))

lemma appendError_rows [simp]:
  "bugRows (appendError e w) = bugRows w" "triageRows (appendError e w) = triageRows w"
  by (simp_all add: appendError_def)

lemma logAt_rows [simp]:
  "bugRows (logAt l m w) = bugRows w" "triageRows (logAt l m w) = triageRows w"
  by (simp_all add: logAt_def)

lemma testRow_sameRows:
  "sameRows w0 (snd st) \<Longrightarrow> sameRows w0 (snd (testRow now c row st))"
  by (cases st) (auto simp: testRow_def sameRows_def Let_def split: sum.splits option.splits)

lemma jobRow_sameRows:
  "sameRows w0 (snd st) \<Longrightarrow> sameRows w0 (snd (jobRow now c row st))"
  by (cases st) (auto simp: jobRow_def sameRows_def Let_def split: sum.splits option.splits)

lemma triageRow_sameRows:
  "sameRows w0 (snd st) \<Longrightarrow> sameRows w0 (snd (triageRow now row st))"
  by (cases st) (auto simp: triageRow_def sameRows_def Let_def split: sum.splits option.splits)

lemma runQuery_sameRows:
  assumes "\<And>now row st. sameRows w (snd st) \<Longrightarrow> sameRows w (snd (body now row st))"
  shows "sameRows w (snd (runQuery body clock rr w))"
proof (cases rr)
  case (Inl e)
  then show ?thesis by (simp add: runQuery_def sameRows_def)
next
  case (Inr it)
  have "sameRows w (snd (rowLoop body clock 0 (yields it) ([], logAt DebugLevel ''querySQL'' w)))"
  proof (rule rowLoop_invariant [where P = "\<lambda>st. sameRows w (snd st)"])
    show "sameRows w (snd (body now row st))" if "sameRows w (snd st)" for now row st
      using that by (rule assms)
    show "sameRows w (snd ([], logAt DebugLevel ''querySQL'' w))"
      by (simp add: sameRows_def)
  qed
  with Inr show ?thesis
    by (auto simp: runQuery_def Let_def sameRows_def split: prod.splits option.splits)
qed

lemma getTestBugMappings_sameRows: "sameRows w (snd (getTestBugMappings clock rr c w))"
  unfolding getTestBugMappings_def by (rule runQuery_sameRows) (rule testRow_sameRows)

lemma getJobBugMappings_sameRows: "sameRows w (snd (getJobBugMappings clock rr c w))"
  unfolding getJobBugMappings_def by (rule runQuery_sameRows) (rule jobRow_sameRows)

lemma getTriageBugMappings_sameRows: "sameRows w (snd (getTriageBugMappings pa clock rk ts w))"
proof (cases "jiraKeysOf pa ts")
  case (Inl e)
  then show ?thesis by (simp add: getTriageBugMappings_def sameRows_def)
next
  case (Inr keys)
  have "sameRows w (snd (runQuery triageRow clock (rk keys) w))"
    by (rule runQuery_sameRows) (rule triageRow_sameRows)
  with Inr show ?thesis by (simp add: getTriageBugMappings_def)
qed

lemma fetchMappingsE:
  assumes "fetchMappings env w = Inr (f, w1)"
  obtains testCache jobCache wa wb wc where
    "LoadTestCache env = Inr testCache"
    "getTestBugMappings (clockTestBugs env) (readTestBugs env) testCache w
       = (Inr (fetchedTestBugs f), wa)"
    "LoadProwJobCache env = Inr jobCache"
    "getJobBugMappings (clockJobBugs env) (readJobBugs env) jobCache
       (logAt InfoLevel ''Loaded test bugs'' wa) = (Inr (fetchedJobBugs f), wb)"
    "ListTriages env (logAt InfoLevel ''Loaded job bugs'' wb) = Inr (fetchedTriages f)"
    "getTriageBugMappings (urlAuthority env) (clockTriageBugs env) (readTriageBugs env)
       (fetchedTriages f) (logAt InfoLevel ''Loaded job bugs'' wb) = (Inr (fetchedTriageBugs f), wc)"
    "w1 = logAt InfoLevel ''Loaded triage bugs'' wc"
  using assms unfolding fetchMappings_def Let_def
  by (auto split: sum.splits prod.splits)

lemma fetchMappings_sameRows:
  assumes "fetchMappings env w = Inr (f, w1)"
  shows "sameRows w w1"
proof -
  from assms obtain testCache jobCache wa wb wc where
    t: "getTestBugMappings (clockTestBugs env) (readTestBugs env) testCache w
       = (Inr (fetchedTestBugs f), wa)"
    and j: "getJobBugMappings (clockJobBugs env) (readJobBugs env) jobCache
       (logAt InfoLevel ''Loaded test bugs'' wa) = (Inr (fetchedJobBugs f), wb)"
    and r: "getTriageBugMappings (urlAuthority env) (clockTriageBugs env) (readTriageBugs env)
       (fetchedTriages f) (logAt InfoLevel ''Loaded job bugs'' wb) = (Inr (fetchedTriageBugs f), wc)"
    and w1: "w1 = logAt InfoLevel ''Loaded triage bugs'' wc"
    by (rule fetchMappingsE)
  from getTestBugMappings_sameRows [of w "clockTestBugs env" "readTestBugs env" testCache] t
  have a: "sameRows w wa" by simp
  from getJobBugMappings_sameRows
    [of "logAt InfoLevel ''Loaded test bugs'' wa" "clockJobBugs env" "readJobBugs env" jobCache] j
  have b: "sameRows (logAt InfoLevel ''Loaded test bugs'' wa) wb" by simp
  from getTriageBugMappings_sameRows
    [of "logAt InfoLevel ''Loaded job bugs'' wb" "urlAuthority env" "clockTriageBugs env"
        "readTriageBugs env" "fetchedTriages f"] r
  have c: "sameRows (logAt InfoLevel ''Loaded job bugs'' wb) wc" by simp
  from a b c w1 show ?thesis by (simp add: sameRows_def)
qed

subsection \<open>The identifiers in the table of tickets\<close>

lemma map_ID_upsertBug:
  "map Bug.ID (upsertBug bug rows) =
     (if Bug.ID bug \<in> set (map Bug.ID rows) then map Bug.ID rows else map Bug.ID rows @ [Bug.ID bug])"
proof -
  have "map Bug.ID (map (\<lambda>r. if Bug.ID r = Bug.ID bug then bug\<lparr>Tests := Tests r, Jobs := Jobs r\<rparr> else r) rows)
          = map Bug.ID rows"
    by (induction rows) simp_all
  then show ?thesis
    by (simp add: upsertBug_def list_ex_iff image_iff) metis
qed

lemma map_ID_replaceTests: "map Bug.ID (replaceTests bug rows) = map Bug.ID rows"
  by (induction rows) (simp_all add: replaceTests_def)

lemma map_ID_replaceJobs: "map Bug.ID (replaceJobs bug rows) = map Bug.ID rows"
  by (induction rows) (simp_all add: replaceJobs_def)

lemma IDs_upsertBug:
  "Bug.ID ` set (upsertBug bug rows) = insert (Bug.ID bug) (Bug.ID ` set rows)"
proof -
  have "set (map Bug.ID (upsertBug bug rows)) = insert (Bug.ID bug) (set (map Bug.ID rows))"
    unfolding map_ID_upsertBug by auto
  then show ?thesis by simp
qed

lemma IDs_replaceTests: "Bug.ID ` set (replaceTests bug rows) = Bug.ID ` set rows"
  by (simp flip: set_map add: map_ID_replaceTests)

lemma IDs_replaceJobs: "Bug.ID ` set (replaceJobs bug rows) = Bug.ID ` set rows"
  by (simp flip: set_map add: map_ID_replaceJobs)

lemma persistBug_rowIDs:
  "rowIDs (snd (persistBug env bug (ids, w)))
     = (if createErr env bug = None then insert (Bug.ID bug) (rowIDs w) else rowIDs w)"
  by (simp add: persistBug_def rowIDs_def Let_def IDs_upsertBug IDs_replaceTests
      IDs_replaceJobs split: option.splits)

lemma persistBug_fst: "fst (persistBug env bug (ids, w)) = ids @ [Bug.ID bug]"
  by (simp add: persistBug_def Let_def split: option.splits)

lemma persistBug_triageRows: "triageRows (snd (persistBug env bug (ids, w))) = triageRows w"
  by (simp add: persistBug_def Let_def split: option.splits)

lemma persistBug_IDs:
  assumes "persistBug env bug (ids, w) = (ids', w')"
  shows "ids' = ids @ [Bug.ID bug] \<and> rowIDs w \<subseteq> rowIDs w'
         \<and> rowIDs w' \<subseteq> insert (Bug.ID bug) (rowIDs w) \<and> triageRows w' = triageRows w"
  using persistBug_rowIDs [of env bug ids w] persistBug_fst [of env bug ids w]
    persistBug_triageRows [of env bug ids w] assms
  by (auto split: if_splits)

lemma persistBugs_IDs:
  "persistBugs env bugs (ids, w) = (ids', w') \<Longrightarrow>
   ids' = ids @ map Bug.ID bugs \<and> rowIDs w \<subseteq> rowIDs w'
   \<and> rowIDs w' \<subseteq> rowIDs w \<union> Bug.ID ` set bugs \<and> triageRows w' = triageRows w"
proof (induction bugs arbitrary: ids w)
  case Nil
  then show ?case by simp
next
  case (Cons bug bugs)
  obtain ids1 wm where s: "persistBug env bug (ids, w) = (ids1, wm)"
    by (cases "persistBug env bug (ids, w)")
  from persistBug_IDs [OF s] Cons.IH [of ids1 wm] Cons.prems s show ?case
    by auto
qed

lemma relinkTriage_bugRows [simp]: "bugRows (relinkTriage env t w) = bugRows w"
  by (simp add: relinkTriage_def Let_def split: option.splits sum.splits)

lemma relinkTriages_bugRows:
  "relinkTriages env ts w = Returned w' \<Longrightarrow> bugRows w' = bugRows w"
  by (induction ts arbitrary: w) (auto split: option.splits if_splits)

lemmas load_eval =
  Load_def fetchMappings_def reconcile_def demoEnv_def getTestBugMappings_def
  getJobBugMappings_def getTriageBugMappings_def runQuery_def ListTriages_def logAt_def
  appendError_def testRow_def jobRow_def triageRow_def demoRow_def demoTestCache_def
  demoJobCache_def Atoi_def isDigit_def bigQueryBugToModel_def mergeBugs_def persistBug_def
  upsertBug_def replaceTests_def replaceJobs_def deleteStale_def deleteNotIn_def demoBug_def
  relinkTriage_def firstByURL_def saveTriage_def preloadBug_def Wrap_def WithMessage_def
  acceptAuthority_def Let_def

lemma rowIDs_logAt [simp]: "rowIDs (logAt l m w) = rowIDs w"
  by (simp add: rowIDs_def)



lemma reconcileE:
  assumes "reconcile env f w1 = Returned w'"
  obtains ids wp where
    "persistBugs env
       (map snd (rangeAllBugs env
          (mergeBugs env (fetchedTestBugs f) (fetchedJobBugs f) (fetchedTriageBugs f))))
       ([], logAt InfoLevel ''Loaded all job bugs'' w1) = (ids, wp)"
    "relinkTriages env (fetchedTriages f)
       (logAt InfoLevel ''ensuring triages have correct refs to their bugs''
          (deleteStale env ids (logAt InfoLevel ''created or updated bugs'' wp))) = Returned w'"
  using assms unfolding reconcile_def Let_def by (auto split: prod.splits)


section \<open>Properties of the bug mapping reconciler: the authoritative set and the stale rows\<close>

subsection \<open>The maps the queries build\<close>





lemma ID_bigQueryBugToModel [simp]: "Bug.ID (bigQueryBugToModel now row) = bigQueryBug.ID row"
  by (simp add: bigQueryBugToModel_def Let_def)





subsection \<open>The merged map does not depend on the range orders\<close>















section \<open>Properties of the bug mapping reconciler: the triage links\<close>

lemmas url_eval =
  parseBugKeyFromURL_def url_Parse_def url_parse_def before_def after_def getScheme_def
  stringContainsCTLByte_def isLetter_def isSchemeOther_def hasPrefix_def demoTriage_def

lemma find_Some_set: "find P xs = Some x \<Longrightarrow> x \<in> set xs \<and> P x"
  by (induction xs) (auto split: if_splits)

lemma find_app: "find P (xs @ ys) = (case find P xs of None \<Rightarrow> find P ys | Some x \<Rightarrow> Some x)"
  by (induction xs) auto

lemma firstByURL_Some:
  "firstByURL url rows = Some b \<Longrightarrow>
   \<exists>r \<in> set rows. Bug.URL r = url \<and> Bug.ID r = Bug.ID b"
proof -
  assume "firstByURL url rows = Some b"
  then obtain r where f: "find (\<lambda>r. Bug.URL r = url) (sort_key Bug.ID rows) = Some r"
    and b: "b = r\<lparr>Tests := [], Jobs := []\<rparr>"
    by (auto simp: firstByURL_def)
  from find_Some_set [OF f] have "r \<in> set rows" "Bug.URL r = url" by simp_all
  with b show ?thesis by auto
qed

lemma find_saveTriage:
  "find (\<lambda>r. Triage.ID r = k) (saveTriage t rows) =
     (if k = Triage.ID t then Some (t\<lparr>Bug := None\<rparr>) else find (\<lambda>r. Triage.ID r = k) rows)"
proof -
  have a: "find (\<lambda>r. Triage.ID r = k)
             (map (\<lambda>r. if Triage.ID r = Triage.ID t then t\<lparr>Bug := None\<rparr> else r) rows)
           = (if k = Triage.ID t
              then (if Triage.ID t \<in> Triage.ID ` set rows then Some (t\<lparr>Bug := None\<rparr>) else None)
              else find (\<lambda>r. Triage.ID r = k) rows)"
    by (induction rows) auto
  have b: "Triage.ID t \<notin> Triage.ID ` set rows \<Longrightarrow> find (\<lambda>r. Triage.ID r = k) rows = None"
    if "k = Triage.ID t"
    using that by (force simp: find_None_iff image_iff)
  show ?thesis
  proof (cases "Triage.ID t \<in> Triage.ID ` set rows")
    case True
    then have "saveTriage t rows
                 = map (\<lambda>r. if Triage.ID r = Triage.ID t then t\<lparr>Bug := None\<rparr> else r) rows"
      by (force simp: saveTriage_def list_ex_iff image_iff)
    with True show ?thesis by (simp only: a if_True)
  next
    case False
    then have s: "saveTriage t rows = rows @ [t\<lparr>Bug := None\<rparr>]"
      by (force simp: saveTriage_def list_ex_iff image_iff)
    show ?thesis
    proof (cases "k = Triage.ID t")
      case True
      with b [OF True False] show ?thesis by (simp add: s find_app)
    next
      case False
      then show ?thesis by (simp add: s find_app split: option.splits)
    qed
  qed
qed

lemma relinkTriage_other:
  "Triage.ID t \<noteq> k \<Longrightarrow> storedTriage (relinkTriage env t w) k = storedTriage w k"
  by (auto simp: relinkTriage_def storedTriage_def Let_def find_saveTriage appendError_def logAt_def
      split: option.splits sum.splits)

lemma relinkTriage_grows:
  "set (logged w) \<subseteq> set (logged (relinkTriage env t w))"
  by (auto simp: relinkTriage_def Let_def appendError_def logAt_def split: option.splits sum.splits)

lemma relinkTriage_effect:
  "linkedToMatching (relinkTriage env t w) t
   \<or> (storedTriage (relinkTriage env t w) (Triage.ID t) = storedTriage w (Triage.ID t)
      \<and> (lookupWarning t \<in> set (logged (relinkTriage env t w))
         \<or> Log ErrorLevel ''error linking bug'' \<in> set (logged (relinkTriage env t w))))"
proof (cases "firstErr env (Triage.URL t)")
  case (Some e)
  then show ?thesis
    by (simp add: relinkTriage_def lookupWarning_def logAt_def storedTriage_def)
next
  case None
  show ?thesis
  proof (cases "firstByURL (Triage.URL t) (bugRows w)")
    case n: None
    with None show ?thesis
      by (simp add: relinkTriage_def lookupWarning_def logAt_def storedTriage_def)
  next
    case (Some bug)
    from firstByURL_Some [OF Some] obtain r where r: "r \<in> set (bugRows w)"
      "Bug.URL r = Triage.URL t" "Bug.ID r = Bug.ID bug" by blast
    show ?thesis
    proof (cases "saveErr env (t\<lparr>Bug := Some bug, BugID := Some (Bug.ID bug)\<rparr>)")
      case s: (Some e)
      with None Some show ?thesis
        by (simp add: relinkTriage_def Let_def logAt_def appendError_def storedTriage_def)
    next
      case s: None
      with None Some r show ?thesis
        by (auto simp: relinkTriage_def Let_def logAt_def linkedToMatching_def storedTriage_def
            find_saveTriage list_ex_iff intro!: bexI [of _ r])
    qed
  qed
qed


lemma relinkTriages_grows:
  "relinkTriages env ts w = Returned w' \<Longrightarrow> set (logged w) \<subseteq> set (logged w')"
proof (induction ts arbitrary: w)
  case Nil
  then show ?case by simp
next
  case (Cons a ts)
  from Cons.prems consider
      "relinkTriages env ts w = Returned w'"
    | "relinkTriages env ts (relinkTriage env a w) = Returned w'"
    by (auto split: option.splits if_splits)
  then show ?case
  proof cases
    case 1
    then show ?thesis by (rule Cons.IH)
  next
    case 2
    from Cons.IH [OF 2] relinkTriage_grows [of w env a] show ?thesis by blast
  qed
qed

lemma relinkTriages_other:
  "relinkTriages env ts w = Returned w' \<Longrightarrow> k \<notin> Triage.ID ` set ts \<Longrightarrow>
   storedTriage w' k = storedTriage w k"
proof (induction ts arbitrary: w)
  case Nil
  then show ?case by simp
next
  case (Cons a ts)
  from Cons.prems(2) have ne: "Triage.ID a \<noteq> k" and nt: "k \<notin> Triage.ID ` set ts" by auto
  from Cons.prems(1) consider
      "relinkTriages env ts w = Returned w'"
    | "relinkTriages env ts (relinkTriage env a w) = Returned w'"
    by (auto split: option.splits if_splits)
  then show ?case
  proof cases
    case 1
    then show ?thesis using nt by (rule Cons.IH)
  next
    case 2
    from Cons.IH [OF 2 nt] relinkTriage_other [OF ne, of env w] show ?thesis by simp
  qed
qed

lemma relinkTriages_keeps_link:
  assumes "relinkTriages env ts w = Returned w'" and "Triage.ID t \<notin> Triage.ID ` set ts"
    and "linkedToMatching w t"
  shows "linkedToMatching w' t"
  using relinkTriages_bugRows [OF assms(1)] relinkTriages_other [OF assms(1,2)] assms(3)
  by (simp add: linkedToMatching_def)

lemma relinkTriages_effect:
  assumes "relinkTriages env ts w = Returned w'" and "distinct (map Triage.ID ts)"
    and "t \<in> set ts" and "\<not> linkedProperly t"
  shows "linkedToMatching w' t
       \<or> (storedTriage w' (Triage.ID t) = storedTriage w (Triage.ID t)
          \<and> (lookupWarning t \<in> set (logged w')
             \<or> Log ErrorLevel ''error linking bug'' \<in> set (logged w')))"
  using assms
proof (induction ts arbitrary: w)
  case Nil
  then show ?case by simp
next
  case (Cons a ts)
  from Cons.prems(2) have d: "distinct (map Triage.ID ts)"
    and na: "Triage.ID a \<notin> Triage.ID ` set ts" by simp_all
  show ?case
  proof (cases "t = a")
    case True
    with Cons.prems(1,4) have r: "relinkTriages env ts (relinkTriage env t w) = Returned w'"
      by (auto simp: linkedProperly_def split: option.splits if_splits)
    from na True have nt: "Triage.ID t \<notin> Triage.ID ` set ts" by simp
    from relinkTriage_effect [of env t w] show ?thesis
    proof
      assume "linkedToMatching (relinkTriage env t w) t"
      with r nt have "linkedToMatching w' t" by (rule relinkTriages_keeps_link)
      then show ?thesis ..
    next
      assume k: "storedTriage (relinkTriage env t w) (Triage.ID t) = storedTriage w (Triage.ID t)
        \<and> (lookupWarning t \<in> set (logged (relinkTriage env t w))
           \<or> Log ErrorLevel ''error linking bug'' \<in> set (logged (relinkTriage env t w)))"
      from relinkTriages_other [OF r nt] k
      have "storedTriage w' (Triage.ID t) = storedTriage w (Triage.ID t)" by simp
      moreover from relinkTriages_grows [OF r] k
      have "lookupWarning t \<in> set (logged w')
           \<or> Log ErrorLevel ''error linking bug'' \<in> set (logged w')" by blast
      ultimately show ?thesis by blast
    qed
  next
    case False
    with Cons.prems(3) have tin: "t \<in> set ts" by simp
    with na have ne: "Triage.ID a \<noteq> Triage.ID t" by force
    from Cons.prems(1) consider
        "relinkTriages env ts w = Returned w'"
      | "relinkTriages env ts (relinkTriage env a w) = Returned w'"
      by (auto split: option.splits if_splits)
    then show ?thesis
    proof cases
      case 1
      from Cons.IH [OF 1 d tin Cons.prems(4)] show ?thesis .
    next
      case 2
      from Cons.IH [OF 2 d tin Cons.prems(4)] relinkTriage_other [OF ne, of env w]
      show ?thesis by simp
    qed
  qed
qed

lemma storedTriage_cong:
  "triageRows w' = triageRows w \<Longrightarrow> storedTriage w' k = storedTriage w k"
  by (simp add: storedTriage_def)

lemma deleteStale_triageRows [simp]: "triageRows (deleteStale env ids w) = triageRows w"
  by (simp add: deleteStale_def split: option.splits)

lemma ListTriages_IDs:
  "ListTriages env w = Inr ts \<Longrightarrow> map Triage.ID ts = map Triage.ID (triageRows w)"
  by (auto simp: ListTriages_def preloadBug_def split: option.splits)

text \<open>
  Claim C4, as stated, fails: a triage linked to ticket 5 whose URL is that of a ticket
  the store does not hold ends the run still linked to ticket 5, whose URL differs. The
  lookup by URL finds nothing, a warning is logged, and the loop goes on to the next
  triage; nothing unlinks the triage.
\<close>

theorem triage_repair_counterexample:
  "Load (demoEnv 9 [demoRow ''5'' ''OCPBUGS-5'' ''unit-test-foo'' True] [] []) demoTriageWorld
     = Returned demoTriageWorldAfter
   \<and> map_option (\<lambda>r. (Triage.URL r, BugID r)) (storedTriage demoTriageWorldAfter 1)
       = Some (''https://issues.redhat.com/browse/OCPBUGS-9'', Some 5)
   \<and> map (\<lambda>b. (Bug.ID b, Bug.URL b)) (bugRows demoTriageWorldAfter)
       = [(5, ''https://issues.redhat.com/browse/OCPBUGS-5'')]"
  by (simp add: load_eval url_eval demoTriageWorld_def demoTriageWorldAfter_def demoLog_def
      storedTriage_def)

text \<open>
  Claim C4, amended: after a run of \<open>Load\<close> that returns, every triage that was
  listed and was not linked properly (no foreign key, or a URL other than that of its
  linked ticket) is either linked to a ticket row whose URL is the triage's URL, or its
  stored row is what it was before the run (so a link to a ticket with another URL
  stays) and the log holds the warning of the failed lookup of its URL or the error of
  the failed save.
\<close>

theorem triage_repair:
  assumes "fetchMappings env w = Inr (f, w1)" and "Load env w = Returned w'"
    and "distinct (map Triage.ID (triageRows w))"
    and "t \<in> set (fetchedTriages f)" and "\<not> linkedProperly t"
  shows "linkedToMatching w' t
       \<or> (storedTriage w' (Triage.ID t) = storedTriage w (Triage.ID t)
          \<and> (lookupWarning t \<in> set (logged w')
             \<or> Log ErrorLevel ''error linking bug'' \<in> set (logged w')))"
proof -
  from assms(1) obtain wb where
    l: "ListTriages env (logAt InfoLevel ''Loaded job bugs'' wb) = Inr (fetchedTriages f)"
    and sb: "sameRows w (logAt InfoLevel ''Loaded job bugs'' wb)"
  proof (rule fetchMappingsE)
    fix testCache jobCache wa wb wc
    assume t: "getTestBugMappings (clockTestBugs env) (readTestBugs env) testCache w
       = (Inr (fetchedTestBugs f), wa)"
      and j: "getJobBugMappings (clockJobBugs env) (readJobBugs env) jobCache
       (logAt InfoLevel ''Loaded test bugs'' wa) = (Inr (fetchedJobBugs f), wb)"
      and l: "ListTriages env (logAt InfoLevel ''Loaded job bugs'' wb) = Inr (fetchedTriages f)"
    assume r: "\<And>wb. ListTriages env (logAt InfoLevel ''Loaded job bugs'' wb) = Inr (fetchedTriages f)
         \<Longrightarrow> sameRows w (logAt InfoLevel ''Loaded job bugs'' wb) \<Longrightarrow> thesis"
    from getTestBugMappings_sameRows [of w "clockTestBugs env" "readTestBugs env" testCache] t
    have a: "sameRows w wa" by simp
    from getJobBugMappings_sameRows
      [of "logAt InfoLevel ''Loaded test bugs'' wa" "clockJobBugs env" "readJobBugs env" jobCache] j
    have b: "sameRows (logAt InfoLevel ''Loaded test bugs'' wa) wb" by simp
    from a b have "sameRows w (logAt InfoLevel ''Loaded job bugs'' wb)"
      by (simp add: sameRows_def)
    with l show thesis by (rule r)
  qed
  from ListTriages_IDs [OF l] sb assms(3)
  have d: "distinct (map Triage.ID (fetchedTriages f))"
    by (simp add: sameRows_def)
  from assms(1,2) have "reconcile env f w1 = Returned w'"
    by (simp add: Load_def)
  then obtain ids wp where
    p: "persistBugs env
       (map snd (rangeAllBugs env
          (mergeBugs env (fetchedTestBugs f) (fetchedJobBugs f) (fetchedTriageBugs f))))
       ([], logAt InfoLevel ''Loaded all job bugs'' w1) = (ids, wp)"
    and r: "relinkTriages env (fetchedTriages f)
       (logAt InfoLevel ''ensuring triages have correct refs to their bugs''
          (deleteStale env ids (logAt InfoLevel ''created or updated bugs'' wp))) = Returned w'"
    by (rule reconcileE)
  let ?ws = "logAt InfoLevel ''ensuring triages have correct refs to their bugs''
          (deleteStale env ids (logAt InfoLevel ''created or updated bugs'' wp))"
  from persistBugs_IDs [OF p] fetchMappings_sameRows [OF assms(1)]
  have "triageRows ?ws = triageRows w"
    by (simp add: sameRows_def)
  then have s: "storedTriage ?ws (Triage.ID t) = storedTriage w (Triage.ID t)"
    by (rule storedTriage_cong)
  from relinkTriages_effect [OF r d assms(4,5)] s show ?thesis by simp
qed

theorem triage_repair_witness:
  "linkedToMatching demoTriageWorldAfter (demoTriage 2 ''OCPBUGS-5'' None None)
   \<and> storedTriage demoTriageWorldAfter 1 = storedTriage demoTriageWorld 1
   \<and> lookupWarning (demoTriage 1 ''OCPBUGS-9'' (Some 5) (Some (demoBug 5 ''OCPBUGS-5'' 1700000000 [] [])))
       \<in> set (logged demoTriageWorldAfter)"
proof -
  let ?env = "demoEnv 9 [demoRow ''5'' ''OCPBUGS-5'' ''unit-test-foo'' True] [] []"
  let ?t1 = "demoTriage 1 ''OCPBUGS-9'' (Some 5) (Some (demoBug 5 ''OCPBUGS-5'' 1700000000 [] []))"
  let ?t2 = "demoTriage 2 ''OCPBUGS-5'' None None"
  have F: "fetchMappings ?env demoTriageWorld
             = Inr (demoTriageFetched, demoTriageWorld\<lparr>logged := demoLog\<rparr>)"
    by (simp add: load_eval url_eval demoTriageWorld_def demoTriageFetched_def demoLog_def)
  have L: "Load ?env demoTriageWorld = Returned demoTriageWorldAfter"
    by (simp add: load_eval url_eval demoTriageWorld_def demoTriageWorldAfter_def demoLog_def)
  have D: "distinct (map Triage.ID (triageRows demoTriageWorld))"
    by (simp add: demoTriageWorld_def demoTriage_def)
  have M: "?t1 \<in> set (fetchedTriages demoTriageFetched)" "?t2 \<in> set (fetchedTriages demoTriageFetched)"
    by (simp_all add: demoTriageFetched_def)
  have N: "\<not> linkedProperly ?t1" "\<not> linkedProperly ?t2"
    by (simp_all add: linkedProperly_def demoTriage_def demoBug_def)
  have S: "storedTriage demoTriageWorldAfter 2 \<noteq> storedTriage demoTriageWorld 2"
    "\<not> linkedToMatching demoTriageWorldAfter ?t1"
    "Log ErrorLevel ''error linking bug'' \<notin> set (logged demoTriageWorldAfter)"
    by (simp_all add: storedTriage_def linkedToMatching_def demoTriageWorldAfter_def
        demoTriageWorld_def demoTriage_def demoBug_def demoLog_def)
  from triage_repair [OF F L D M(2) N(2)] S(1)
  have a: "linkedToMatching demoTriageWorldAfter ?t2"
    by (simp add: demoTriage_def)
  from triage_repair [OF F L D M(1) N(1)] S(2,3)
  have b: "storedTriage demoTriageWorldAfter 1 = storedTriage demoTriageWorld 1
           \<and> lookupWarning ?t1 \<in> set (logged demoTriageWorldAfter)"
    by (simp add: demoTriage_def)
  from a b show ?thesis by simp
qed

section \<open>Properties of the bug mapping reconciler: running \<open>Load\<close> twice\<close>

subsection \<open>Rows with a valid timestamp do not look at the clock\<close>

lemma bigQueryBugToModel_valid:
  "Valid (LastChangedTime row) \<Longrightarrow> bigQueryBugToModel now row = bigQueryBugToModel now' row"
  by (simp add: bigQueryBugToModel_def)






























subsection \<open>The triages keep their identifiers and URLs\<close>











lemma persistBugs_triageRows:
  "triageRows (snd (persistBugs env bs (ids, w))) = triageRows w"
proof (induction bs arbitrary: ids w)
  case Nil
  then show ?case by simp
next
  case (Cons a bs)
  obtain ids1 w1 where s: "persistBug env a (ids, w) = (ids1, w1)"
    by (cases "persistBug env a (ids, w)")
  from persistBug_triageRows [of env a ids w] s have "triageRows w1 = triageRows w" by simp
  with Cons.IH [of ids1 w1] s show ?case by simp
qed













end
